theory Spec2Isabelle
  imports Complex_Main
begin

section \<open>PAR/REC headers (nibabel/parrec.py)\<close>

text \<open>
  A shallow embedding of \<^verbatim>\<open>nibabel/parrec.py\<close>: the parser \<^verbatim>\<open>parse_PAR_header\<close>
  and the methods of \<^verbatim>\<open>PARRECHeader\<close>.

  Conventions of the embedding.
  \<^item> A Python exception is a value of type \<open>error\<close>; a function that may raise returns
    \<open>error + 'a\<close>, with \<open>Inl\<close> for the exception.
  \<^item> Python's \<^verbatim>\<open>int\<close> is \<open>int\<close>. A finite floating-point number is a \<open>real\<close>;
    rounding, infinities and NaN are outside the model, and a floating-point division
    whose divisor is zero (which numpy answers with \<^verbatim>\<open>inf\<close> or \<^verbatim>\<open>nan\<close>) is the
    value \<open>NonFinite\<close>.
  \<^item> A one-dimensional numpy array is a list; a column of the structured array
    \<^verbatim>\<open>image_defs\<close> is an \<open>ndarray\<close>, of one or two dimensions.
\<close>

subsection \<open>Exceptions\<close>

datatype parrec_msg =
    Varying string            \<comment> \<open>\<^verbatim>\<open>'Varying %s in image sequence (%s). This is not suppported.'\<close>\<close>
  | SliceCount nat int        \<comment> \<open>\<^verbatim>\<open>'Header inconsistency: Found %i slices, but header claims to have %i.'\<close>\<close>
  | UnknownSliceOrientation string  \<comment> \<open>\<^verbatim>\<open>'Unknown slice orientation ({0}).'\<close>\<close>
  | NonzeroOffset             \<comment> \<open>\<^verbatim>\<open>'PAR header assumes offset 0'\<close>\<close>

datatype error =
    PARRECError parrec_msg
  | RuntimeError              \<comment> \<open>more than one of dynamics, DTI volumes, echoes\<close>
  | ValueError
  | KeyError string           \<comment> \<open>a dictionary without the key\<close>
  | IndexError
  | ZeroDivisionError
  | TypeError
  | OverflowError
  | UnknownOrientationError int  \<comment> \<open>the lookup of a code that \<^verbatim>\<open>slice_orientation_codes\<close> does not have\<close>

text \<open>Evaluating a list of computations from left to right; the first exception wins.\<close>

fun sequence :: "(error + 'a) list \<Rightarrow> error + 'a list" where
  "sequence [] = Inr []"
| "sequence (Inl e # _) = Inl e"
| "sequence (Inr x # ms) = (case sequence ms of Inl e \<Rightarrow> Inl e | Inr xs \<Rightarrow> Inr (x # xs))"

subsection \<open>numpy arrays\<close>

datatype 'a ndarray =
    Arr1 "'a list"            \<comment> \<open>shape \<open>(n,)\<close>: the column of a scalar field\<close>
  | Arr2 "'a list list"       \<comment> \<open>shape \<open>(n, k)\<close>: the column of an array field, one row per image\<close>

fun ndim :: "'a ndarray \<Rightarrow> nat" where
  \<comment> \<open>\<^verbatim>\<open>len(prop.shape)\<close>\<close>
  "ndim (Arr1 _) = 1"
| "ndim (Arr2 _) = 2"

fun getitem :: "'a ndarray \<Rightarrow> nat \<Rightarrow> error + 'a ndarray" where
  \<comment> \<open>\<^verbatim>\<open>prop[i]\<close>: indexing is along the first axis, so on a two-dimensional column it
      selects the row of image \<open>i\<close>. (On a one-dimensional array it gives a scalar; the
      source never indexes one.)\<close>
  "getitem (Arr1 xs) i = (if i < length xs then Inr (Arr1 [xs ! i]) else Inl IndexError)"
| "getitem (Arr2 rows) i = (if i < length rows then Inr (Arr1 (rows ! i)) else Inl IndexError)"

fun ravel :: "'a ndarray \<Rightarrow> 'a list" where
  "ravel (Arr1 xs) = xs"
| "ravel (Arr2 rows) = concat rows"

definition np_unique :: "'a::linorder ndarray \<Rightarrow> 'a list" where
  \<comment> \<open>\<^verbatim>\<open>np.unique\<close>: the sorted distinct elements of the flattened array\<close>
  "np_unique a = sort (remdups (ravel a))"

definition first :: "'a list \<Rightarrow> error + 'a" where
  \<comment> \<open>\<^verbatim>\<open>uprop[0]\<close>\<close>
  "first xs = (case xs of [] \<Rightarrow> Inl IndexError | x # _ \<Rightarrow> Inr x)"

subsection \<open>\<^verbatim>\<open>PARRECHeader._get_unique_image_prop\<close>\<close>

definition get_unique_image_prop :: "string \<Rightarrow> 'a::linorder ndarray \<Rightarrow> error + 'a list" where
  \<comment> \<open>\<open>prop\<close> is the column \<^verbatim>\<open>self.image_defs[name]\<close>\<close>
  "get_unique_image_prop name prop =
     (case (if 1 < ndim prop
            then sequence (map (\<lambda>i. map_sum id np_unique (getitem prop i)) [0..<ndim prop])
            else Inr [np_unique prop]) of
        Inl e \<Rightarrow> Inl e
      | Inr uprops \<Rightarrow>
          if \<not> prod_list (map length uprops) = 1
          then Inl (PARRECError (Varying name))
          else sequence (map first uprops))"

subsection \<open>The header's data\<close>

text \<open>
  \<^verbatim>\<open>general_info\<close> is a dictionary from the short names of \<^verbatim>\<open>_hdr_key_dict\<close> to values
  typed by that table. The record holds the entries that the header's methods read; a
  field is \<open>None\<close> when the dictionary has no such key, and reading it raises KeyError.
  The three-element vectors have the shape \<open>(3,)\<close> that the table declares.
\<close>

record geninfo =
  max_echoes :: "int option"
  max_slices :: "int option"
  max_dynamics :: "int option"
  repetition_time :: "real option"
  angulation :: "(real \<times> real \<times> real) option"
  off_center :: "(real \<times> real \<times> real) option"
  max_diffusion_values :: "int option"
  max_gradient_orient :: "int option"

definition getkey :: "string \<Rightarrow> 'a option \<Rightarrow> error + 'a" where
  \<comment> \<open>\<^verbatim>\<open>self.general_info[key]\<close>\<close>
  "getkey key v = (case v of None \<Rightarrow> Inl (KeyError key) | Some x \<Rightarrow> Inr x)"

text \<open>
  One element of the structured array \<^verbatim>\<open>image_defs\<close> (dtype \<^verbatim>\<open>image_def_dtd\<close>), with
  the fields that the header's methods read. The fields of shape \<open>(2,)\<close> are pairs.
\<close>

record image_def =
  slice_number :: int
  echo_number :: int
  dynamic_scan_number :: int
  image_pixel_size :: int
  recon_resolution :: "int \<times> int"
  rescale_intercept :: real
  rescale_slope :: real
  scale_slope :: real
  slice_thickness :: real
  slice_gap :: real
  slice_orientation :: int
  pixel_spacing :: "real \<times> real"

definition column :: "(image_def \<Rightarrow> 'a) \<Rightarrow> image_def list \<Rightarrow> 'a ndarray" where
  \<comment> \<open>\<^verbatim>\<open>self.image_defs[name]\<close> for a scalar field: shape \<open>(n,)\<close>\<close>
  "column f defs = Arr1 (map f defs)"

definition column2 :: "(image_def \<Rightarrow> 'a \<times> 'a) \<Rightarrow> image_def list \<Rightarrow> 'a ndarray" where
  \<comment> \<open>\<^verbatim>\<open>self.image_defs[name]\<close> for a field of shape \<open>(2,)\<close>: shape \<open>(n, 2)\<close>\<close>
  "column2 f defs = Arr2 (map (\<lambda>d. [fst (f d), snd (f d)]) defs)"

datatype dtype = Int8 | Int16 | Int32 | Int64

fun str_nat :: "nat \<Rightarrow> string" where
  \<comment> \<open>the decimal digits of a natural number\<close>
  "str_nat n =
     (if n < 10 then [char_of (48 + n)] else str_nat (n div 10) @ [char_of (48 + n mod 10)])"

declare str_nat.simps [simp del]

definition str :: "int \<Rightarrow> string" where
  \<comment> \<open>\<^verbatim>\<open>str(i)\<close> for an integer\<close>
  "str i = (if i < 0 then CHR ''-'' # str_nat (nat (- i)) else str_nat (nat i))"

definition typeDict_int :: "int \<Rightarrow> error + dtype" where
  \<comment> \<open>\<^verbatim>\<open>np.typeDict['int' + str(bits)]\<close>: numpy has the names \<^verbatim>\<open>int8\<close>, \<^verbatim>\<open>int16\<close>,
      \<^verbatim>\<open>int32\<close>, \<^verbatim>\<open>int64\<close> and \<^verbatim>\<open>int0\<close> (the integer of the size of a pointer, 64 bits);
      another name is a KeyError\<close>
  "typeDict_int bits =
     (if bits = 8 then Inr Int8 else if bits = 16 then Inr Int16
      else if bits = 32 then Inr Int32 else if bits = 64 then Inr Int64
      else if bits = 0 then Inr Int64
      else Inl (KeyError (''int'' @ str bits)))"

text \<open>
  The object under construction and the finished header. \<open>parrec_self\<close> has the
  attributes that \<^verbatim>\<open>PARRECHeader.__init__\<close> sets itself; \<open>parrec_header\<close> adds what the
  base class \<^verbatim>\<open>Header\<close> keeps. A method that reads only the former is defined on the record
  scheme, so it applies to both, as it does in \<^verbatim>\<open>__init__\<close> before the base class is
  initialised.
\<close>

record parrec_self =
  general_info :: geninfo
  image_defs :: "image_def list"
  cached_slice_orientation :: "string option"   \<comment> \<open>\<^verbatim>\<open>self._slice_orientation\<close>\<close>
  default_scaling :: string

record parrec_header = parrec_self +
  data_dtype :: dtype
  data_shape :: "int list"
  data_zooms :: "real list"

subsection \<open>Voxel sizes and zooms\<close>

definition index :: "'a list \<Rightarrow> nat \<Rightarrow> error + 'a" where
  \<comment> \<open>\<^verbatim>\<open>xs[i]\<close> with \<open>i\<close> not negative\<close>
  "index xs i = (if i < length xs then Inr (xs ! i) else Inl IndexError)"

definition get_voxel_size :: "'a parrec_self_scheme \<Rightarrow> error + real list" where
  "get_voxel_size h =
     (case get_unique_image_prop ''slice thickness'' (column slice_thickness (image_defs h)) of
        Inl e \<Rightarrow> Inl e
      | Inr u \<Rightarrow>
     (case index u 0 of Inl e \<Rightarrow> Inl e | Inr thickness \<Rightarrow>
     (case get_unique_image_prop ''pixel spacing'' (column2 pixel_spacing (image_defs h)) of
        Inl e \<Rightarrow> Inl e
      | Inr voxsize_inplane \<Rightarrow>
     (case index voxsize_inplane 0 of Inl e \<Rightarrow> Inl e | Inr x \<Rightarrow>
     (case index voxsize_inplane 1 of Inl e \<Rightarrow> Inl e | Inr y \<Rightarrow>
        Inr [x, y, thickness])))))"

definition get_ndim :: "'a parrec_self_scheme \<Rightarrow> error + nat" where
  \<comment> \<open>\<^verbatim>\<open>or\<close> evaluates its right operand only when the left one is false\<close>
  "get_ndim h =
     (case getkey ''max_dynamics'' (max_dynamics (general_info h)) of Inl e \<Rightarrow> Inl e | Inr md \<Rightarrow>
        if md > 1 then Inr 4 else
     (case getkey ''max_gradient_orient'' (max_gradient_orient (general_info h)) of
        Inl e \<Rightarrow> Inl e | Inr mg \<Rightarrow>
        if mg > 1 then Inr 4 else
     (case getkey ''max_echoes'' (max_echoes (general_info h)) of Inl e \<Rightarrow> Inl e | Inr me \<Rightarrow>
        if me > 1 then Inr 4 else Inr 3)))"

definition get_zooms_from_header :: "'a parrec_self_scheme \<Rightarrow> error + real list" where
  \<comment> \<open>\<^verbatim>\<open>PARRECHeader._get_zooms\<close>\<close>
  "get_zooms_from_header h =
     (case get_unique_image_prop ''slice gap'' (column slice_gap (image_defs h)) of
        Inl e \<Rightarrow> Inl e
      | Inr u \<Rightarrow>
     (case index u 0 of Inl e \<Rightarrow> Inl e | Inr gap \<Rightarrow>
     (case get_ndim h of Inl e \<Rightarrow> Inl e | Inr n \<Rightarrow>
     (case get_voxel_size h of Inl e \<Rightarrow> Inl e | Inr voxsize \<Rightarrow>
        let zooms = replicate n 1;
            zooms = voxsize @ drop 3 zooms;
            zooms = zooms[2 := zooms ! 2 + gap]
        in if 3 < length zooms
           then (case getkey ''max_dynamics'' (max_dynamics (general_info h)) of
                   Inl e \<Rightarrow> Inl e
                 | Inr md \<Rightarrow>
                   if md > 1
                   then (case getkey ''repetition_time'' (repetition_time (general_info h)) of
                           Inl e \<Rightarrow> Inl e
                         | Inr tr \<Rightarrow> Inr (zooms[3 := tr / 1000]))
                   else Inr zooms)
           else Inr zooms))))"

subsection \<open>The shape of the data\<close>

definition get_data_shape_in_file :: "'a parrec_self_scheme \<Rightarrow> error + int list" where
  "get_data_shape_in_file h =
     (let ndynamics = length (np_unique (column dynamic_scan_number (image_defs h))) in
      case getkey ''max_diffusion_values'' (max_diffusion_values (general_info h)) of
        Inl e \<Rightarrow> Inl e | Inr mdv \<Rightarrow>
     (case getkey ''max_gradient_orient'' (max_gradient_orient (general_info h)) of
        Inl e \<Rightarrow> Inl e | Inr mgo \<Rightarrow>
      let ndtivolumes = (mdv - 1) * mgo;
          nslices = length (np_unique (column slice_number (image_defs h)))
      in
     (case getkey ''max_slices'' (max_slices (general_info h)) of
        Inl e \<Rightarrow> Inl e | Inr ms \<Rightarrow>
      if \<not> int nslices = ms then Inl (PARRECError (SliceCount nslices ms)) else
      let nechos = length (np_unique (column echo_number (image_defs h)));
          lens = [int ndynamics, ndtivolumes, int nechos]
      in if 1 < length (filter (\<lambda>x. x > 1) lens) then Inl RuntimeError else
     (case get_unique_image_prop ''recon resolution''
             (column2 recon_resolution (image_defs h)) of
        Inl e \<Rightarrow> Inl e | Inr inplane_shape \<Rightarrow>
      let shape = inplane_shape @ [int nslices]
      in if ndynamics > 1 then Inr (shape @ [int ndynamics])
         else if ndtivolumes > 1 then Inr (shape @ [ndtivolumes])
         else if nechos > 1 then Inr (shape @ [int nechos])
         else Inr shape))))"

subsection \<open>Scaling\<close>

datatype npfloat =
    Finite real
  | NonFinite     \<comment> \<open>\<^verbatim>\<open>inf\<close>, \<^verbatim>\<open>-inf\<close> or \<^verbatim>\<open>nan\<close>: the quotient by a zero divisor\<close>

definition np_divide :: "real \<Rightarrow> real \<Rightarrow> npfloat" where
  \<comment> \<open>the division of numpy arrays warns and does not raise when the divisor is zero\<close>
  "np_divide a b = (if b = 0 then NonFinite else Finite (a / b))"

definition get_data_scaling ::
  "'a parrec_self_scheme \<Rightarrow> string \<Rightarrow> error + npfloat list \<times> npfloat list" where
  "get_data_scaling h method =
     (case get_unique_image_prop ''scale slope'' (column scale_slope (image_defs h)) of
        Inl e \<Rightarrow> Inl e | Inr ss \<Rightarrow>
     (case get_unique_image_prop ''rescale slope'' (column rescale_slope (image_defs h)) of
        Inl e \<Rightarrow> Inl e | Inr rs \<Rightarrow>
     (case get_unique_image_prop ''rescale intercept''
             (column rescale_intercept (image_defs h)) of
        Inl e \<Rightarrow> Inl e | Inr ri \<Rightarrow>
      if method = ''dv'' then Inr (map Finite rs, map Finite ri)
      else if method = ''fp''
      then Inr (map (np_divide 1) ss, map2 np_divide ri (map2 (*) rs ss))
      else Inl ValueError)))"

definition asscalar :: "'a list \<Rightarrow> error + 'a" where
  \<comment> \<open>\<^verbatim>\<open>np.asscalar\<close>: the element of an array of size one\<close>
  "asscalar v = (case v of [x] \<Rightarrow> Inr x | _ \<Rightarrow> Inl ValueError)"

definition get_slope_inter :: "'a parrec_self_scheme \<Rightarrow> error + npfloat \<times> npfloat" where
  "get_slope_inter h =
     (case get_data_scaling h (default_scaling h) of
        Inl e \<Rightarrow> Inl e
      | Inr (slope, intercept) \<Rightarrow>
     (case asscalar slope of Inl e \<Rightarrow> Inl e | Inr s \<Rightarrow>
     (case asscalar intercept of Inl e \<Rightarrow> Inl e | Inr i \<Rightarrow> Inr (s, i))))"

definition apply_read_scaling :: "real \<Rightarrow> real \<Rightarrow> real \<Rightarrow> real" where
  \<comment> \<open>Modelled from the spec: \<^verbatim>\<open>volumeutils.apply_read_scaling\<close> is not in src/. The spec's
      \<open>scaled_data\<close> is the raw data followed by elementwise \<open>value*slope + intercept\<close>;
      this is the scaling of one element.\<close>
  "apply_read_scaling pv slope intercept = pv * slope + intercept"

subsection \<open>Slice orientation\<close>

definition slice_orientation_codes :: "(int \<times> string) list" where
  "slice_orientation_codes = [(1, ''transverse''), (2, ''sagittal''), (3, ''coronal'')]"

definition label :: "int \<Rightarrow> error + string" where
  \<comment> \<open>Modelled from the spec: the class \<^verbatim>\<open>Recoder\<close> (\<^verbatim>\<open>volumeutils\<close>) is not in src/. This is
      \<^verbatim>\<open>slice_orientation_codes.label[code]\<close>; the spec maps the code through the fixed
      table and says that an unknown code fails with \<open>UnknownOrientationError\<close>.\<close>
  "label code =
     (case map_of slice_orientation_codes code of
        None \<Rightarrow> Inl (UnknownOrientationError code)
      | Some l \<Rightarrow> Inr l)"

definition get_slice_orientation ::
  "'a parrec_self_scheme \<Rightarrow> (error + string) \<times> 'a parrec_self_scheme" where
  \<comment> \<open>the result and the object, whose \<^verbatim>\<open>_slice_orientation\<close> the first call sets\<close>
  "get_slice_orientation h =
     (case cached_slice_orientation h of
        None \<Rightarrow>
          (case get_unique_image_prop ''slice orientation''
                  (column slice_orientation (image_defs h)) of
             Inl e \<Rightarrow> (Inl e, h) | Inr u \<Rightarrow>
          (case index u 0 of Inl e \<Rightarrow> (Inl e, h) | Inr code \<Rightarrow>
          (case label code of
             Inl e \<Rightarrow> (Inl e, h)
           | Inr l \<Rightarrow> (Inr l, h\<lparr>cached_slice_orientation := Some l\<rparr>))))
      | Some l \<Rightarrow> (Inr l, h))"

subsection \<open>Matrices\<close>

text \<open>A two-dimensional array of floats is the list of its rows.\<close>

type_synonym matrix = "real list list"

definition eye :: "nat \<Rightarrow> matrix" where
  "eye n = map (\<lambda>i. map (\<lambda>j. if i = j then 1 else 0) [0..<n]) [0..<n]"

definition np_diag :: "real list \<Rightarrow> matrix" where
  "np_diag v = map (\<lambda>i. map (\<lambda>j. if i = j then v ! i else 0) [0..<length v]) [0..<length v]"

definition ncols :: "matrix \<Rightarrow> nat" where
  "ncols m = (case m of [] \<Rightarrow> 0 | r # _ \<Rightarrow> length r)"

definition np_dot :: "matrix \<Rightarrow> matrix \<Rightarrow> matrix" where
  \<comment> \<open>the matrix product: entry \<open>(i, j)\<close> is the sum of the products of row \<open>i\<close> of \<open>a\<close>
      with column \<open>j\<close> of \<open>b\<close>\<close>
  "np_dot a b =
     map (\<lambda>r. map (\<lambda>j. sum_list (map2 (*) r (map (\<lambda>br. br ! j) b))) [0..<ncols b]) a"

definition from_matvec :: "matrix \<Rightarrow> real list \<Rightarrow> matrix" where
  \<comment> \<open>Modelled from the spec: \<^verbatim>\<open>affines.from_matvec\<close> is not in src/. The spec's affine is a
      homogeneous 4x4 matrix with a 3x3 block and a translation column, so the matrix
      goes to the upper-left block, the vector to the last column, and the last row is
      \<open>0 \<dots> 0 1\<close>.\<close>
  "from_matvec m v = map2 (\<lambda>r x. r @ [x]) m v @ [replicate (length v) 0 @ [1]]"

fun dot_reduce :: "matrix \<Rightarrow> matrix list \<Rightarrow> matrix" where
  \<comment> \<open>Modelled from the spec: \<^verbatim>\<open>affines.dot_reduce\<close> is not in src/. The spec composes the
      factors as one product, the rightmost factor applied first.\<close>
  "dot_reduce m [] = m"
| "dot_reduce m (n # ns) = np_dot m (dot_reduce n ns)"

definition PSL_TO_RAS :: matrix where
  "PSL_TO_RAS = [[0, 0, -1, 0],
                 [-1, 0, 0, 0],
                 [0, 1, 0, 0],
                 [0, 0, 0, 1]]"

definition ACQ_TO_PSL :: "string \<rightharpoonup> matrix" where
  "ACQ_TO_PSL = map_of
     [(''transverse'', [[0, 1, 0, 0],
                        [0, 0, 1, 0],
                        [1, 0, 0, 0],
                        [0, 0, 0, 1]]),
      (''sagittal'', np_diag [1, -1, -1, 1]),
      (''coronal'', [[0, 0, 1, 0],
                     [0, -1, 0, 0],
                     [1, 0, 0, 0],
                     [0, 0, 0, 1]])]"

definition add_translation :: "matrix \<Rightarrow> real \<times> real \<times> real \<Rightarrow> matrix" where
  \<comment> \<open>\<^verbatim>\<open>psl_aff[:3, 3] += iso_offset\<close>, on a matrix of four rows and four columns\<close>
  "add_translation m off =
     (case off of (a, b, c) \<Rightarrow>
        m[0 := (m ! 0)[3 := m ! 0 ! 3 + a],
          1 := (m ! 1)[3 := m ! 1 ! 3 + b],
          2 := (m ! 2)[3 := m ! 2 ! 3 + c]])"

subsection \<open>The affine\<close>

definition get_data_shape :: "'a parrec_header_scheme \<Rightarrow> int list" where
  \<comment> \<open>Modelled from the spec: the base class \<^verbatim>\<open>Header\<close> (\<^verbatim>\<open>spatialimages\<close>) is not in src/.
      The header exposes the data shape it was constructed with.\<close>
  "get_data_shape h = data_shape h"

definition get_zooms :: "'a parrec_header_scheme \<Rightarrow> real list" where
  \<comment> \<open>Modelled from the spec: the base class \<^verbatim>\<open>Header\<close> (\<^verbatim>\<open>spatialimages\<close>) is not in src/.
      The header exposes the zoom vector it was constructed with.\<close>
  "get_zooms h = data_zooms h"

text \<open>
  \<^verbatim>\<open>eulerangles.euler2mat\<close> is not in src/: \<open>get_affine\<close> takes it as the parameter
  \<open>euler2mat\<close>, a function from the angles \<open>z\<close>, \<open>y\<close>, \<open>x\<close> to a 3x3 matrix.
\<close>

definition get_affine ::
  "(real \<Rightarrow> real \<Rightarrow> real \<Rightarrow> matrix) \<Rightarrow> string \<Rightarrow> 'a parrec_header_scheme
     \<Rightarrow> (error + matrix) \<times> 'a parrec_header_scheme" where
  "get_affine euler2mat origin h =
     (let ijk_shape = take 3 (get_data_shape h);
          to_center = from_matvec (eye 3) (map (\<lambda>s. - (real_of_int s - 1) / 2) ijk_shape);
          zoomer = np_diag (take 3 (get_zooms h) @ [1])
      in case get_slice_orientation h of
           (Inl e, h') \<Rightarrow> (Inl e, h')
         | (Inr orientation, h') \<Rightarrow>
      (case ACQ_TO_PSL orientation of
         None \<Rightarrow> (Inl (PARRECError (UnknownSliceOrientation orientation)), h')
       | Some permute_to_psl \<Rightarrow>
      (case getkey ''angulation'' (angulation (general_info h')) of
         Inl e \<Rightarrow> (Inl e, h')
       | Inr (ap, fh, rl) \<Rightarrow>
         let rot = from_matvec (euler2mat (rl * pi / 180) (fh * pi / 180) (ap * pi / 180))
                     [0, 0, 0];
             psl_aff = dot_reduce rot [permute_to_psl, zoomer, to_center]
         in if origin = ''scanner''
            then (case getkey ''off_center'' (off_center (general_info h')) of
                    Inl e \<Rightarrow> (Inl e, h')
                  | Inr iso_offset \<Rightarrow>
                      (Inr (np_dot PSL_TO_RAS (add_translation psl_aff iso_offset)), h'))
            else (Inr (np_dot PSL_TO_RAS psl_aff), h'))))"

subsection \<open>Construction and copy\<close>

definition PARRECHeader_init ::
  "geninfo \<Rightarrow> image_def list \<Rightarrow> string \<Rightarrow> error + parrec_header" where
  \<comment> \<open>\<^verbatim>\<open>PARRECHeader.__init__\<close>. Modelled from the spec: the base class \<^verbatim>\<open>Header\<close> is not in
      src/; its \<^verbatim>\<open>__init__\<close> keeps the dtype, the shape and the zooms it is given.\<close>
  "PARRECHeader_init info defs scaling =
     (let self = \<lparr>general_info = info, image_defs = defs,
                   cached_slice_orientation = None, default_scaling = scaling\<rparr>
      in case get_unique_image_prop ''image pixel size'' (column image_pixel_size defs) of
           Inl e \<Rightarrow> Inl e | Inr u \<Rightarrow>
      (case index u 0 of Inl e \<Rightarrow> Inl e | Inr bits \<Rightarrow>
      (case typeDict_int bits of Inl e \<Rightarrow> Inl e | Inr dt \<Rightarrow>
      (case get_data_shape_in_file self of Inl e \<Rightarrow> Inl e | Inr shape \<Rightarrow>
      (case get_zooms_from_header self of Inl e \<Rightarrow> Inl e | Inr zooms \<Rightarrow>
         Inr \<lparr>general_info = info, image_defs = defs,
              cached_slice_orientation = None, default_scaling = scaling,
              data_dtype = dt, data_shape = shape, data_zooms = zooms\<rparr>)))))"

definition copy :: "'a parrec_self_scheme \<Rightarrow> error + parrec_header" where
  \<comment> \<open>\<^verbatim>\<open>PARRECHeader(deepcopy(self.general_info), self.image_defs.copy())\<close>: the third
      parameter of \<^verbatim>\<open>__init__\<close> takes its default, \<^verbatim>\<open>'dv'\<close>\<close>
  "copy h = PARRECHeader_init (general_info h) (image_defs h) ''dv''"

subsection \<open>Strings\<close>

text \<open>
  The methods of Python's \<^verbatim>\<open>str\<close> that the parser uses, on ASCII text. The whitespace
  characters are the space, the characters 0x09 to 0x0D and the separators 0x1C to 0x1F.
\<close>

definition is_space :: "char \<Rightarrow> bool" where
  "is_space c =
     (c \<in> set [CHR '' '', CHR 0x09, CHR 0x0A, CHR 0x0B, CHR 0x0C, CHR 0x0D,
                CHR 0x1C, CHR 0x1D, CHR 0x1E, CHR 0x1F])"

definition py_strip :: "string \<Rightarrow> string" where
  "py_strip s = rev (dropWhile is_space (rev (dropWhile is_space s)))"

fun split_ws :: "string \<Rightarrow> string \<Rightarrow> string list" where
  \<comment> \<open>the word read so far, and the rest of the string\<close>
  "split_ws w [] = (if w = [] then [] else [w])"
| "split_ws w (c # cs) =
     (if is_space c then (if w = [] then split_ws [] cs else w # split_ws [] cs)
      else split_ws (w @ [c]) cs)"

definition py_split :: "string \<Rightarrow> string list" where
  \<comment> \<open>\<^verbatim>\<open>line.split()\<close>: the maximal runs of characters that are not whitespace\<close>
  "py_split s = split_ws [] s"

definition py_join :: "string list \<Rightarrow> string" where
  \<comment> \<open>\<^verbatim>\<open>" ".join(itms)\<close>\<close>
  "py_join ws = (case ws of [] \<Rightarrow> [] | w # ws' \<Rightarrow> w @ concat (map (\<lambda>v. CHR '' '' # v) ws'))"

definition startswith :: "string \<Rightarrow> string \<Rightarrow> bool" where
  "startswith s p = (take (length p) s = p)"

fun py_find :: "string \<Rightarrow> char \<Rightarrow> int" where
  \<comment> \<open>\<^verbatim>\<open>s.find(c)\<close>: the index of the first \<open>c\<close>, or -1\<close>
  "py_find [] c = - 1"
| "py_find (x # xs) c = (if x = c then 0 else (let i = py_find xs c in if i < 0 then - 1 else i + 1))"

fun py_count :: "string \<Rightarrow> string \<Rightarrow> bool" where
  \<comment> \<open>whether \<^verbatim>\<open>s.count(sub)\<close> is not zero, for a \<open>sub\<close> that is not empty\<close>
  "py_count [] sub = False"
| "py_count (c # cs) sub = (take (length sub) (c # cs) = sub \<or> py_count cs sub)"

subsection \<open>The two field tables\<close>

datatype pytype =
    Tint       \<comment> \<open>\<^verbatim>\<open>int\<close>\<close>
  | Tfloat     \<comment> \<open>\<^verbatim>\<open>float\<close>\<close>
  | S30        \<comment> \<open>\<^verbatim>\<open>'S30'\<close>\<close>

datatype props =
    P1 string                        \<comment> \<open>\<^verbatim>\<open>(shortname,)\<close>\<close>
  | P2 string pytype                 \<comment> \<open>\<^verbatim>\<open>(name, dtype)\<close>\<close>
  | P3 string pytype "nat list"      \<comment> \<open>\<^verbatim>\<open>(name, dtype, shape)\<close>\<close>

fun len :: "props \<Rightarrow> nat" where
  "len (P1 _) = 1"
| "len (P2 _ _) = 2"
| "len (P3 _ _ _) = 3"

fun props0 :: "props \<Rightarrow> string" where
  "props0 (P1 n) = n"
| "props0 (P2 n _) = n"
| "props0 (P3 n _ _) = n"

fun dtype_of :: "props \<Rightarrow> pytype option" where
  \<comment> \<open>\<^verbatim>\<open>props[1]\<close>, where the tuple has it\<close>
  "dtype_of (P1 _) = None"
| "dtype_of (P2 _ t) = Some t"
| "dtype_of (P3 _ t _) = Some t"

definition hdr_key_dict :: "(string \<times> props) list" where
  \<comment> \<open>\<^verbatim>\<open>_hdr_key_dict\<close>\<close>
  "hdr_key_dict =
    [(''Patient name'', P1 ''patient_name''),
     (''Examination name'', P1 ''exam_name''),
     (''Protocol name'', P1 ''protocol_name''),
     (''Examination date/time'', P1 ''exam_date''),
     (''Series Type'', P1 ''series_type''),
     (''Acquisition nr'', P2 ''acq_nr'' Tint),
     (''Reconstruction nr'', P2 ''recon_nr'' Tint),
     (''Scan Duration [sec]'', P2 ''scan_duration'' Tfloat),
     (''Max. number of cardiac phases'', P2 ''max_cardiac_phases'' Tint),
     (''Max. number of echoes'', P2 ''max_echoes'' Tint),
     (''Max. number of slices/locations'', P2 ''max_slices'' Tint),
     (''Max. number of dynamics'', P2 ''max_dynamics'' Tint),
     (''Max. number of mixes'', P2 ''max_mixes'' Tint),
     (''Patient position'', P1 ''patient_position''),
     (''Preparation direction'', P1 ''prep_direction''),
     (''Technique'', P1 ''tech''),
     (''Scan resolution  (x, y)'', P3 ''scan_resolution'' Tint [2]),
     (''Scan mode'', P1 ''san_mode''),
     (''Repetition time [ms]'', P2 ''repetition_time'' Tfloat),
     (''FOV (ap,fh,rl) [mm]'', P3 ''fov'' Tfloat [3]),
     (''Water Fat shift [pixels]'', P2 ''water_fat_shift'' Tfloat),
     (''Angulation midslice(ap,fh,rl)[degr]'', P3 ''angulation'' Tfloat [3]),
     (''Off Centre midslice(ap,fh,rl) [mm]'', P3 ''off_center'' Tfloat [3]),
     (''Flow compensation <0=no 1=yes> ?'', P2 ''flow_compensation'' Tint),
     (''Presaturation     <0=no 1=yes> ?'', P2 ''presaturation'' Tint),
     (''Phase encoding velocity [cm/sec]'', P3 ''phase_enc_velocity'' Tfloat [3]),
     (''MTC               <0=no 1=yes> ?'', P2 ''mtc'' Tint),
     (''SPIR              <0=no 1=yes> ?'', P2 ''spir'' Tint),
     (''EPI factor        <0,1=no EPI>'', P2 ''epi_factor'' Tint),
     (''Dynamic scan      <0=no 1=yes> ?'', P2 ''dyn_scan'' Tint),
     (''Diffusion         <0=no 1=yes> ?'', P2 ''diffusion'' Tint),
     (''Diffusion echo time [ms]'', P2 ''diffusion_echo_time'' Tfloat),
     (''Max. number of diffusion values'', P2 ''max_diffusion_values'' Tint),
     (''Max. number of gradient orients'', P2 ''max_gradient_orient'' Tint),
     (''Number of label types   <0=no ASL>'', P2 ''nr_label_types'' Tint)]"

definition image_def_dtd :: "props list" where
  "image_def_dtd =
    [P2 ''slice number'' Tint,
     P2 ''echo number'' Tint,
     P2 ''dynamic scan number'' Tint,
     P2 ''cardiac phase number'' Tint,
     P2 ''image_type_mr'' Tint,
     P2 ''scanning sequence'' Tint,
     P2 ''index in REC file'' Tint,
     P2 ''image pixel size'' Tint,
     P2 ''scan percentage'' Tint,
     P3 ''recon resolution'' Tint [2],
     P2 ''rescale intercept'' Tfloat,
     P2 ''rescale slope'' Tfloat,
     P2 ''scale slope'' Tfloat,
     P2 ''window center'' Tint,
     P2 ''window width'' Tint,
     P3 ''image angulation'' Tfloat [3],
     P3 ''image offcentre'' Tfloat [3],
     P2 ''slice thickness'' Tfloat,
     P2 ''slice gap'' Tfloat,
     P2 ''image_display_orientation'' Tint,
     P2 ''slice orientation'' Tint,
     P2 ''fmri_status_indication'' Tint,
     P2 ''image_type_ed_es'' Tint,
     P3 ''pixel spacing'' Tfloat [2],
     P2 ''echo_time'' Tfloat,
     P2 ''dyn_scan_begin_time'' Tfloat,
     P2 ''trigger_time'' Tfloat,
     P2 ''diffusion_b_factor'' Tfloat,
     P2 ''number of averages'' Tint,
     P2 ''image_flip_angle'' Tfloat,
     P2 ''cardiac frequency'' Tint,
     P2 ''minimum RR-interval'' Tint,
     P2 ''maximum RR-interval'' Tint,
     P2 ''TURBO factor'' Tint,
     P2 ''Inversion delay'' Tfloat,
     P2 ''diffusion b value number'' Tint,
     P2 ''gradient orientation number'' Tint,
     P2 ''contrast type'' S30,
     P2 ''diffusion anisotropy type'' S30,
     P3 ''diffusion'' Tfloat [3],
     P2 ''label type'' Tint]"

subsection \<open>\<^verbatim>\<open>parse_PAR_header\<close>\<close>

text \<open>
  The values that the parser stores: in the dictionary \<^verbatim>\<open>general_info\<close> a string, an
  integer, a float or an array; in a field of \<^verbatim>\<open>image_defs\<close> an integer, a float, a byte
  string or an array. The elements of an array are kept as floats whatever its dtype.
\<close>

datatype pyval =
    StrV string
  | IntV int
  | FloatV npfloat
  | BytesV string
  | ArrayV "npfloat list"

text \<open>
  The conversions come from Python and numpy, not from this module: the parser is
  parametrised by them. \<open>py_int\<close> and \<open>py_float\<close> are \<^verbatim>\<open>int(s)\<close> and \<^verbatim>\<open>float(s)\<close>, \<open>None\<close>
  where they raise ValueError; \<open>np_fromstring\<close> is \<^verbatim>\<open>np.fromstring(s, dtype, sep=' ')\<close>,
  which reads numbers from the front of the string, \<open>None\<close> where it raises ValueError.
\<close>

record pylib =
  py_int :: "string \<Rightarrow> int option"
  py_float :: "string \<Rightarrow> npfloat option"
  np_fromstring :: "pytype \<Rightarrow> string \<Rightarrow> npfloat list option"

definition call_type :: "pylib \<Rightarrow> pytype \<Rightarrow> string \<Rightarrow> error + pyval" where
  \<comment> \<open>\<^verbatim>\<open>props[1](s)\<close>; a string such as \<^verbatim>\<open>'S30'\<close> is not callable\<close>
  "call_type lib t s =
     (case t of
        Tint \<Rightarrow> (case py_int lib s of None \<Rightarrow> Inl ValueError | Some i \<Rightarrow> Inr (IntV i))
      | Tfloat \<Rightarrow> (case py_float lib s of None \<Rightarrow> Inl ValueError | Some x \<Rightarrow> Inr (FloatV x))
      | S30 \<Rightarrow> Inl TypeError)"

definition store_scalar :: "pyval \<Rightarrow> error + pyval" where
  \<comment> \<open>the assignment of a Python number to a field of a numpy array: an integer that does
      not fit in 64 bits raises OverflowError\<close>
  "store_scalar v =
     (case v of
        IntV i \<Rightarrow> if - (2 ^ 63) \<le> i \<and> i < 2 ^ 63 then Inr v else Inl OverflowError
      | _ \<Rightarrow> Inr v)"

definition store_array :: "nat \<Rightarrow> npfloat list \<Rightarrow> error + npfloat list" where
  \<comment> \<open>the assignment of a one-dimensional array to a field of \<open>n\<close> elements: an array of one
      element is broadcast, an array of another length raises ValueError\<close>
  "store_array n v =
     (if length v = n then Inr v
      else if length v = 1 then Inr (replicate n (v ! 0))
      else Inl ValueError)"

definition reshape :: "nat list \<Rightarrow> npfloat list \<Rightarrow> error + npfloat list" where
  \<comment> \<open>\<^verbatim>\<open>value.shape = props[2]\<close>: the sizes must agree\<close>
  "reshape shape v = (if length v = prod_list shape then Inr v else Inl ValueError)"

type_synonym row = "string \<rightharpoonup> pyval"

fun zero :: "props \<Rightarrow> pyval" where
  \<comment> \<open>the element of \<^verbatim>\<open>np.zeros\<close> for a field\<close>
  "zero (P1 _) = StrV []"
| "zero (P2 _ Tint) = IntV 0"
| "zero (P2 _ Tfloat) = FloatV (Finite 0)"
| "zero (P2 _ S30) = BytesV []"
| "zero (P3 _ _ shape) = ArrayV (replicate (prod_list shape) (Finite 0))"

definition zero_row :: "props list \<Rightarrow> row" where
  "zero_row dtd = map_of (map (\<lambda>p. (props0 p, zero p)) dtd)"

definition field_is_bytes :: "props list \<Rightarrow> string \<Rightarrow> bool" where
  \<comment> \<open>\<^verbatim>\<open>np.issubdtype(image_defs[name].dtype, binary_type)\<close>: the dtype of a field is the one
      that the table declares for its name\<close>
  "field_is_bytes dtd name =
     (case map_of (map (\<lambda>p. (props0 p, dtype_of p)) dtd) name of
        Some (Some S30) \<Rightarrow> True
      | _ \<Rightarrow> False)"

definition parse_prop ::
  "pylib \<Rightarrow> props list \<Rightarrow> string list \<Rightarrow> nat \<times> row \<Rightarrow> props \<Rightarrow> error + nat \<times> row" where
  \<comment> \<open>the body of the loop over \<^verbatim>\<open>image_def_dtd\<close>, on \<^verbatim>\<open>item_counter\<close> and the row\<close>
  "parse_prop lib dtd items st p =
     (case st of (item_counter, r) \<Rightarrow>
      if field_is_bytes dtd (props0 p)
      then (case index items item_counter of
              Inl e \<Rightarrow> Inl e
            | Inr tok \<Rightarrow> Inr (item_counter + 1, r(props0 p \<mapsto> BytesV (take 30 tok))))
      else if len p = 2
      then (case p of
              P2 name t \<Rightarrow>
                if t = S30 then Inl ZeroDivisionError
                else (case index items item_counter of
                        Inl e \<Rightarrow> Inl e
                      | Inr tok \<Rightarrow>
                     (case call_type lib t tok of
                        Inl e \<Rightarrow> Inl e
                      | Inr v \<Rightarrow>
                     (case store_scalar v of
                        Inl e \<Rightarrow> Inl e
                      | Inr v' \<Rightarrow> Inr (item_counter + 1, r(name \<mapsto> v')))))
            | _ \<Rightarrow> Inr st)
      else if len p = 3
      then (case p of
              P3 name t shape \<Rightarrow>
                let nelements = prod_list shape;
                    itms = take nelements (drop item_counter items)
                in (case np_fromstring lib t (py_join itms) of
                      None \<Rightarrow> Inl ValueError
                    | Some v \<Rightarrow>
                   (case store_array nelements v of
                      Inl e \<Rightarrow> Inl e
                    | Inr a \<Rightarrow> Inr (item_counter + nelements, r(name \<mapsto> ArrayV a))))
            | _ \<Rightarrow> Inr st)
      else Inr st)"

fun parse_props ::
  "pylib \<Rightarrow> props list \<Rightarrow> string list \<Rightarrow> props list \<Rightarrow> nat \<times> row \<Rightarrow> error + nat \<times> row" where
  \<comment> \<open>\<^verbatim>\<open>for props in image_def_dtd\<close>\<close>
  "parse_props lib dtd items [] st = Inr st"
| "parse_props lib dtd items (p # ps) st =
     (case parse_prop lib dtd items st p of
        Inl e \<Rightarrow> Inl e
      | Inr st' \<Rightarrow> parse_props lib dtd items ps st')"

definition parse_image_def :: "pylib \<Rightarrow> props list \<Rightarrow> string \<Rightarrow> error + row" where
  \<comment> \<open>one round of \<^verbatim>\<open>for i, line in enumerate(image_info)\<close>: the row of image \<open>i\<close>\<close>
  "parse_image_def lib dtd line =
     (case parse_props lib dtd (py_split line) dtd (0, zero_row dtd) of
        Inl e \<Rightarrow> Inl e
      | Inr (item_counter, r) \<Rightarrow> Inr r)"

definition parse_general_info ::
  "pylib \<Rightarrow> string \<Rightarrow> (string \<rightharpoonup> pyval) \<Rightarrow> error + (string \<rightharpoonup> pyval)" where
  \<comment> \<open>the branch \<^verbatim>\<open>elif line.startswith('.')\<close>\<close>
  "parse_general_info lib line ginfo =
     (let first_colon = nat (py_find (drop 1 line) CHR '':'' + 1);
          key = py_strip (drop 1 (take first_colon line));
          val = py_strip (drop (first_colon + 1) line)
      in case map_of hdr_key_dict key of
           None \<Rightarrow> Inl (KeyError key)
         | Some p \<Rightarrow>
             if len p = 2
             then (case p of
                     P2 name t \<Rightarrow>
                       (case call_type lib t val of
                          Inl e \<Rightarrow> Inl e
                        | Inr v \<Rightarrow> Inr (ginfo(name \<mapsto> v)))
                   | _ \<Rightarrow> Inr ginfo)
             else if len p = 3
             then (case p of
                     P3 name t shape \<Rightarrow>
                       (case np_fromstring lib t val of
                          None \<Rightarrow> Inl ValueError
                        | Some v \<Rightarrow>
                       (case reshape shape v of
                          Inl e \<Rightarrow> Inl e
                        | Inr a \<Rightarrow> Inr (ginfo(name \<mapsto> ArrayV a))))
                   | _ \<Rightarrow> Inr ginfo)
             else Inr (ginfo(props0 p \<mapsto> StrV val)))"

fun first_pass ::
  "pylib \<Rightarrow> string list \<Rightarrow> (string \<rightharpoonup> pyval) \<times> string list
     \<Rightarrow> error + (string \<rightharpoonup> pyval) \<times> string list" where
  \<comment> \<open>\<^verbatim>\<open>for line in fobj\<close>, on \<^verbatim>\<open>general_info\<close> and \<^verbatim>\<open>image_info\<close>. A line of the version
      sets \<^verbatim>\<open>version\<close>, which only a warning reads.\<close>
  "first_pass lib [] st = Inr st"
| "first_pass lib (l # ls) (ginfo, image_info) =
     (let line = py_strip l in
      if startswith line ''#''
      then (if py_count line ''image export tool''
            then first_pass lib ls (ginfo, image_info)
            else first_pass lib ls (ginfo, image_info))
      else if startswith line ''.''
      then (case parse_general_info lib line ginfo of
              Inl e \<Rightarrow> Inl e
            | Inr ginfo' \<Rightarrow> first_pass lib ls (ginfo', image_info))
      else if line \<noteq> []
      then first_pass lib ls (ginfo, image_info @ [line])
      else first_pass lib ls (ginfo, image_info))"

definition parse_PAR_header ::
  "pylib \<Rightarrow> string list \<Rightarrow> error + (string \<rightharpoonup> pyval) \<times> row list" where
  "parse_PAR_header lib fobj =
     (case first_pass lib fobj (Map.empty, []) of
        Inl e \<Rightarrow> Inl e
      | Inr (ginfo, image_info) \<Rightarrow>
     (case sequence (map (parse_image_def lib image_def_dtd) image_info) of
        Inl e \<Rightarrow> Inl e
      | Inr idefs \<Rightarrow> Inr (ginfo, idefs)))"

definition ntokens :: "props \<Rightarrow> nat" where
  \<comment> \<open>the tokens that a field takes from the line\<close>
  "ntokens p = (case p of P1 _ \<Rightarrow> 0 | P2 _ _ \<Rightarrow> 1 | P3 _ _ shape \<Rightarrow> prod_list shape)"

definition required_tokens :: "props list \<Rightarrow> nat" where
  "required_tokens dtd = sum_list (map ntokens dtd)"

definition image_lines :: "string list \<Rightarrow> string list" where
  \<comment> \<open>the lines that the first pass keeps as image definitions\<close>
  "image_lines fobj =
     filter (\<lambda>line. \<not> startswith line ''#'' \<and> \<not> startswith line ''.'' \<and> line \<noteq> [])
       (map py_strip fobj)"

text \<open>
  An instance of the conversions for the concrete lines below: decimal integer literals,
  decimal float literals with an optional fraction and exponent (and the spellings of
  infinity and NaN), and a \<^verbatim>\<open>np.fromstring\<close> that converts the tokens of the string one by
  one and stops at the first that is no literal.
\<close>

definition is_digit :: "char \<Rightarrow> bool" where
  "is_digit c = (c \<in> set ''0123456789'')"

fun nat_of_digits :: "nat \<Rightarrow> string \<Rightarrow> nat option" where
  "nat_of_digits acc [] = Some acc"
| "nat_of_digits acc (c # cs) =
     (if is_digit c then nat_of_digits (10 * acc + (of_char c - 48)) cs else None)"

definition strip_sign :: "string \<Rightarrow> bool \<times> string" where
  "strip_sign s =
     (case s of
        c # cs \<Rightarrow> if c = CHR ''-'' then (True, cs) else if c = CHR ''+'' then (False, cs)
                  else (False, s)
      | [] \<Rightarrow> (False, s))"

definition int_literal :: "string \<Rightarrow> int option" where
  "int_literal s =
     (case strip_sign s of (neg, ds) \<Rightarrow>
        if ds = [] then None
        else map_option (\<lambda>n. if neg then - int n else int n) (nat_of_digits 0 ds))"

definition float_literal :: "string \<Rightarrow> npfloat option" where
  "float_literal s =
     (case strip_sign s of (neg, body) \<Rightarrow>
      if body \<in> set [''inf'', ''Inf'', ''INF'', ''infinity'', ''Infinity'', ''INFINITY'',
                      ''nan'', ''NaN'', ''NAN'']
      then Some NonFinite
      else
        let is_e = (\<lambda>c. c = CHR ''e'' \<or> c = CHR ''E'');
            mant = takeWhile (\<lambda>c. \<not> is_e c) body;
            rest = dropWhile (\<lambda>c. \<not> is_e c) body;
            ip = takeWhile (\<lambda>c. c \<noteq> CHR ''.'') mant;
            fp = drop 1 (dropWhile (\<lambda>c. c \<noteq> CHR ''.'') mant)
        in if ip = [] \<and> fp = [] then None
           else (case (nat_of_digits 0 ip, nat_of_digits 0 fp,
                       if rest = [] then Some 0 else int_literal (drop 1 rest)) of
                   (Some a, Some b, Some ex) \<Rightarrow>
                     let m = real a + real b / 10 ^ length fp;
                         x = (if 0 \<le> ex then m * 10 ^ nat ex else m / 10 ^ nat (- ex))
                     in Some (Finite (if neg then - x else x))
                 | _ \<Rightarrow> None))"

fun parse_prefix :: "(string \<Rightarrow> npfloat option) \<Rightarrow> string list \<Rightarrow> npfloat list" where
  "parse_prefix f [] = []"
| "parse_prefix f (w # ws) = (case f w of None \<Rightarrow> [] | Some x \<Rightarrow> x # parse_prefix f ws)"

definition decimal_lib :: pylib where
  "decimal_lib =
     \<lparr>py_int = int_literal,
      py_float = float_literal,
      np_fromstring = (\<lambda>t s.
        case t of
          Tint \<Rightarrow> Some (parse_prefix (\<lambda>w. map_option (\<lambda>i. Finite (real_of_int i)) (int_literal w))
                          (py_split s))
        | Tfloat \<Rightarrow> Some (parse_prefix float_literal (py_split s))
        | S30 \<Rightarrow> None)\<rparr>"

subsection \<open>Counts and example headers\<close>

text \<open>The counts that \<open>get_data_shape_in_file\<close> takes from the table.\<close>

abbreviation ndynamics :: "'a parrec_self_scheme \<Rightarrow> nat" where
  "ndynamics h \<equiv> length (np_unique (column dynamic_scan_number (image_defs h)))"

abbreviation nslices :: "'a parrec_self_scheme \<Rightarrow> nat" where
  "nslices h \<equiv> length (np_unique (column slice_number (image_defs h)))"

abbreviation nechos :: "'a parrec_self_scheme \<Rightarrow> nat" where
  "nechos h \<equiv> length (np_unique (column echo_number (image_defs h)))"

text \<open>
  A small series for the concrete instances: images of 64 x 64 pixels of 16 bits, pixel
  spacing 3.75, slice thickness 6, slice gap 2, transverse, with scale slope 2, rescale
  slope 1.5 and rescale intercept 0.
\<close>

definition phantom_image :: "int \<Rightarrow> int \<Rightarrow> int \<Rightarrow> image_def" where
  "phantom_image sl ec dyn =
     \<lparr>slice_number = sl, echo_number = ec, dynamic_scan_number = dyn,
      image_pixel_size = 16, recon_resolution = (64, 64),
      rescale_intercept = 0, rescale_slope = 1.5, scale_slope = 2,
      slice_thickness = 6, slice_gap = 2, slice_orientation = 1,
      pixel_spacing = (3.75, 3.75)\<rparr>"

definition phantom_info :: geninfo where
  "phantom_info =
     \<lparr>max_echoes = Some 1, max_slices = Some 3, max_dynamics = Some 1,
      repetition_time = Some 2000, angulation = Some (0, 0, 0),
      off_center = Some (2.51, 6.98, -10.53),
      max_diffusion_values = Some 1, max_gradient_orient = Some 1\<rparr>"

definition phantom_defs :: "image_def list" where
  \<comment> \<open>three slices, one echo, one dynamic\<close>
  "phantom_defs = [phantom_image 1 1 1, phantom_image 2 1 1, phantom_image 3 1 1]"

definition dynamic_defs :: "image_def list" where
  \<comment> \<open>one slice, one echo, five dynamics\<close>
  "dynamic_defs = [phantom_image 1 1 1, phantom_image 1 1 2, phantom_image 1 1 3,
                   phantom_image 1 1 4, phantom_image 1 1 5]"

definition multi_defs :: "image_def list" where
  \<comment> \<open>one slice, two echoes, three dynamics\<close>
  "multi_defs = [phantom_image 1 1 1, phantom_image 1 2 1, phantom_image 1 1 2,
                 phantom_image 1 2 2, phantom_image 1 1 3, phantom_image 1 2 3]"

definition nonsquare_defs :: "image_def list" where
  \<comment> \<open>the three slices with pixels of 3.75 by 2\<close>
  "nonsquare_defs = map (\<lambda>d. d\<lparr>pixel_spacing := (3.75, 2)\<rparr>) phantom_defs"

definition new_self :: "geninfo \<Rightarrow> image_def list \<Rightarrow> parrec_self" where
  "new_self info defs =
     \<lparr>general_info = info, image_defs = defs,
      cached_slice_orientation = None, default_scaling = ''dv''\<rparr>"

definition phantom_header :: "string \<Rightarrow> parrec_header" where
  "phantom_header scaling =
     \<lparr>general_info = phantom_info, image_defs = phantom_defs,
      cached_slice_orientation = None, default_scaling = scaling,
      data_dtype = Int16, data_shape = [64, 64, 3], data_zooms = [3.75, 3.75, 8]\<rparr>"

text \<open>
  The cache \<^verbatim>\<open>_slice_orientation\<close> is valid when it is empty or holds what
  \<open>get_slice_orientation\<close> computes on an empty cache. \<open>PARRECHeader_init\<close> leaves it
  empty, and \<open>get_slice_orientation\<close> and \<open>get_affine\<close> keep it valid.
\<close>

definition cache_valid :: "'a parrec_self_scheme \<Rightarrow> bool" where
  "cache_valid h =
     (case cached_slice_orientation h of
        None \<Rightarrow> True
      | Some l \<Rightarrow> fst (get_slice_orientation (h\<lparr>cached_slice_orientation := None\<rparr>)) = Inr l)"

text \<open>The phantom header with another slice orientation code in every image.\<close>

definition oriented_header :: "int \<Rightarrow> parrec_header" where
  "oriented_header code =
     (phantom_header ''dv'')\<lparr>image_defs := map (\<lambda>d. d\<lparr>slice_orientation := code\<rparr>) phantom_defs\<rparr>"

subsection \<open>Theorems\<close>

text \<open>
  C1. The claim: on the column of an array-valued field, the uniqueness check returns
  the single distinct combination of the field's elements across all rows, and raises
  exactly when the rows hold more than one distinct combination. The code indexes the
  column by image (\<^verbatim>\<open>prop[i]\<close> for \<open>i = 0, 1\<close>) where it means to index it by element, so
  it compares the elements inside row 0 and inside row 1 and never looks at a later row.
  Three evaluations of the code: rows with two distinct combinations are accepted; two
  equal rows, one combination, are rejected because the row's two elements differ; a
  table of one image fails with an IndexError.
\<close>

theorem C1_unique_checks_rows_not_columns:
  "get_unique_image_prop ''recon resolution'' (Arr2 [[64, 64], [64, 64], [128, 128 :: int]])
     = Inr [64, 64]
   \<and> get_unique_image_prop ''pixel spacing'' (Arr2 [[3.75, 2], [3.75, 2 :: real]])
     = Inl (PARRECError (Varying ''pixel spacing''))
   \<and> get_unique_image_prop ''recon resolution'' (Arr2 [[64, 64 :: int]]) = Inl IndexError"
  by (simp add: get_unique_image_prop_def np_unique_def first_def upt_rec)


subsection \<open>Lemmas on the uniqueness check\<close>

lemmas phantom_simps =
  phantom_image_def phantom_info_def phantom_defs_def dynamic_defs_def multi_defs_def
  nonsquare_defs_def new_self_def phantom_header_def

lemma np_unique_length: "length (np_unique (Arr1 xs)) = card (set xs)"
  by (simp add: np_unique_def length_remdups_card_conv)

lemma distinct_count: "length (np_unique (column f defs)) = card (f ` set defs)"
  by (simp add: column_def np_unique_length)

lemma remdups_const: "xs \<noteq> [] \<Longrightarrow> set xs \<subseteq> {c} \<Longrightarrow> remdups xs = [c]"
proof (induction xs)
  case Nil
  then show ?case by simp
next
  case (Cons x xs)
  then have x: "x = c" by simp
  show ?case
  proof (cases "xs = []")
    case True
    then show ?thesis using x by simp
  next
    case False
    then obtain y where "y \<in> set xs" by (cases xs) auto
    with Cons.prems have "c \<in> set xs" by auto
    moreover have "remdups xs = [c]" using Cons.IH False Cons.prems by simp
    ultimately show ?thesis using x by simp
  qed
qed

lemma np_unique_const:
  assumes "xs \<noteq> []" "\<forall>x\<in>set xs. x = c"
  shows "np_unique (Arr1 xs) = [c]"
proof -
  have "set xs \<subseteq> {c}" using assms(2) by blast
  from remdups_const[OF assms(1) this] show ?thesis by (simp add: np_unique_def)
qed

text \<open>On a one-dimensional column the check is the one the docstring describes.\<close>

lemma unique_Arr1:
  "get_unique_image_prop name (Arr1 xs) =
     (case np_unique (Arr1 xs) of [x] \<Rightarrow> Inr [x] | _ \<Rightarrow> Inl (PARRECError (Varying name)))"
  by (auto simp: get_unique_image_prop_def first_def split: list.splits)

lemma unique_column_const:
  assumes "defs \<noteq> []" "\<forall>d\<in>set defs. f d = c"
  shows "get_unique_image_prop name (column f defs) = Inr [c]"
proof -
  have "np_unique (Arr1 (map f defs)) = [c]"
    using assms by (intro np_unique_const) auto
  then show ?thesis by (simp add: column_def unique_Arr1)
qed

text \<open>
  On a two-dimensional column the check reads the rows of the first two images, and
  each of them must consist of one repeated element.
\<close>

lemma unique_Arr2:
  "get_unique_image_prop name (Arr2 rows) =
     (if length rows < 2 then Inl IndexError
      else case (np_unique (Arr1 (rows ! 0)), np_unique (Arr1 (rows ! 1))) of
             ([x], [y]) \<Rightarrow> Inr [x, y]
           | _ \<Rightarrow> Inl (PARRECError (Varying name)))"
proof (cases rows)
  case Nil
  then show ?thesis by (simp add: get_unique_image_prop_def upt_rec)
next
  case (Cons r rs)
  show ?thesis
  proof (cases rs)
    case Nil
    with Cons show ?thesis by (simp add: get_unique_image_prop_def upt_rec)
  next
    case (Cons r' rs')
    with \<open>rows = r # rs\<close> show ?thesis
      by (simp add: get_unique_image_prop_def upt_rec first_def split: list.splits)
  qed
qed

lemma unique_Arr2_length:
  "get_unique_image_prop name (Arr2 rows) = Inr u \<Longrightarrow> length u = 2"
  by (auto simp: unique_Arr2 split: if_splits list.splits)

text \<open>
  When all images carry the same pair and the check passes, it returns that pair (and
  the pair's two elements are equal).
\<close>

lemma unique_column2_const:
  assumes "\<forall>d\<in>set defs. f d = (x, y)"
    and "\<not> isl (get_unique_image_prop name (column2 f defs))"
  shows "get_unique_image_prop name (column2 f defs) = Inr [x, y]"
proof -
  from assms(2) have len: "2 \<le> length defs"
    by (auto simp: column2_def unique_Arr2 split: if_splits)
  then obtain a b rest where defs: "defs = a # b # rest"
    by (cases defs; cases "tl defs") auto
  have ab: "f a = (x, y)" "f b = (x, y)"
    using assms(1) by (simp_all add: defs)
  have u: "np_unique (Arr1 [x, y]) = (if x = y then [x] else if x < y then [x, y] else [y, x])"
    by (auto simp: np_unique_def)
  have eq: "get_unique_image_prop name (column2 f defs)
              = (if x = y then Inr [x, y] else Inl (PARRECError (Varying name)))"
    by (simp add: column2_def unique_Arr2 defs ab u)
  with assms(2) show ?thesis by (simp split: if_splits)
qed

lemma phantom_init: "PARRECHeader_init phantom_info phantom_defs sc = Inr (phantom_header sc)"
  by (simp add: PARRECHeader_init_def phantom_simps unique_Arr1 unique_Arr2 column_def
      column2_def np_unique_def index_def typeDict_int_def get_data_shape_in_file_def
      getkey_def get_zooms_from_header_def get_ndim_def get_voxel_size_def)

subsection \<open>Scaling\<close>

text \<open>
  C4. For a header whose images all carry scale slope \<open>SS\<close>, rescale slope \<open>RS\<close> and
  rescale intercept \<open>RI\<close>, \<open>get_data_scaling\<close> returns \<open>(RS, RI)\<close> for the method
  \<^verbatim>\<open>'dv'\<close> and \<open>(1/SS, RI/(RS*SS))\<close> for \<^verbatim>\<open>'fp'\<close>, the quotients being floating-point
  quotients; where \<open>SS\<close> and \<open>RS\<close> are not zero they are the quotients of the reals, and
  then the value scaled by \<^verbatim>\<open>'fp'\<close>, times \<open>RS*SS\<close>, is the value scaled by \<^verbatim>\<open>'dv'\<close>.
\<close>

theorem C4_data_scaling:
  assumes "image_defs h \<noteq> []"
    and "\<forall>d\<in>set (image_defs h).
           scale_slope d = SS \<and> rescale_slope d = RS \<and> rescale_intercept d = RI"
  shows "get_data_scaling h ''dv'' = Inr ([Finite RS], [Finite RI])
       \<and> get_data_scaling h ''fp'' = Inr ([np_divide 1 SS], [np_divide RI (RS * SS)])
       \<and> (SS \<noteq> 0 \<and> RS \<noteq> 0 \<longrightarrow>
            get_data_scaling h ''fp'' = Inr ([Finite (1 / SS)], [Finite (RI / (RS * SS))])
          \<and> (\<forall>pv. apply_read_scaling pv (1 / SS) (RI / (RS * SS)) * (RS * SS)
                  = apply_read_scaling pv RS RI))"
proof -
  have ss: "get_unique_image_prop ''scale slope'' (column scale_slope (image_defs h))
              = Inr [SS]"
    using assms by (intro unique_column_const) auto
  have rs: "get_unique_image_prop ''rescale slope'' (column rescale_slope (image_defs h))
              = Inr [RS]"
    using assms by (intro unique_column_const) auto
  have ri: "get_unique_image_prop ''rescale intercept''
              (column rescale_intercept (image_defs h)) = Inr [RI]"
    using assms by (intro unique_column_const) auto
  have dv: "get_data_scaling h ''dv'' = Inr ([Finite RS], [Finite RI])"
    by (simp add: get_data_scaling_def ss rs ri)
  have fp: "get_data_scaling h ''fp'' = Inr ([np_divide 1 SS], [np_divide RI (RS * SS)])"
    by (simp add: get_data_scaling_def ss rs ri)
  have alg: "apply_read_scaling pv (1 / SS) (RI / (RS * SS)) * (RS * SS)
               = apply_read_scaling pv RS RI" if "SS \<noteq> 0" "RS \<noteq> 0" for pv
    using that by (simp add: apply_read_scaling_def field_simps)
  show ?thesis using dv fp alg by (simp add: np_divide_def)
qed

text \<open>
  The instance of the spec: \<open>SS = 2\<close>, \<open>RS = 1.5\<close>, \<open>RI = 0\<close>; the stored value 10 is
  15 under \<^verbatim>\<open>'dv'\<close> and 5 under \<^verbatim>\<open>'fp'\<close>, and \<open>5 * 3 = 15\<close>.
\<close>

theorem C4_data_scaling_witness:
  "get_data_scaling (phantom_header ''dv'') ''dv'' = Inr ([Finite 1.5], [Finite 0])
 \<and> get_data_scaling (phantom_header ''dv'') ''fp'' = Inr ([Finite 0.5], [Finite 0])
 \<and> apply_read_scaling 10 1.5 0 = 15
 \<and> apply_read_scaling 10 0.5 0 = 5
 \<and> apply_read_scaling 10 0.5 0 * (1.5 * 2) = apply_read_scaling 10 1.5 0"
proof -
  have ne: "image_defs (phantom_header ''dv'') \<noteq> []" by (simp add: phantom_simps)
  have hom: "\<forall>d\<in>set (image_defs (phantom_header ''dv'')).
               scale_slope d = 2 \<and> rescale_slope d = 1.5 \<and> rescale_intercept d = 0"
    by (simp add: phantom_simps)
  from C4_data_scaling[OF ne hom] show ?thesis
    by (simp add: apply_read_scaling_def np_divide_def)
qed

subsection \<open>The shape of the data\<close>

text \<open>
  C5. A header that \<open>PARRECHeader_init\<close> constructs has as many distinct slice numbers
  in its table as its general information declares in \<open>max_slices\<close>; and when the two
  differ (the general information having the keys read before the comparison),
  \<open>get_data_shape_in_file\<close> raises the PARRECError of the header inconsistency.
\<close>

theorem C5_slice_count:
  "(PARRECHeader_init info defs sc = Inr hdr \<longrightarrow>
      max_slices (general_info hdr)
        = Some (int (card (slice_number ` set (image_defs hdr)))))
 \<and> (max_diffusion_values (general_info h) = Some mdv
      \<and> max_gradient_orient (general_info h) = Some mgo
      \<and> max_slices (general_info h) = Some ms
      \<and> int (card (slice_number ` set (image_defs h))) \<noteq> ms \<longrightarrow>
      get_data_shape_in_file h
        = Inl (PARRECError (SliceCount (card (slice_number ` set (image_defs h))) ms)))"
proof -
  have init: "max_slices (general_info hdr)
                = Some (int (card (slice_number ` set (image_defs hdr))))"
    if "PARRECHeader_init info defs sc = Inr hdr"
  proof -
    let ?self = "\<lparr>general_info = info, image_defs = defs,
                  cached_slice_orientation = None, default_scaling = sc\<rparr>"
    from that obtain shape where sh: "get_data_shape_in_file ?self = Inr shape"
      and hdr: "general_info hdr = info" "image_defs hdr = defs"
      by (auto simp: PARRECHeader_init_def Let_def split: sum.splits)
    from sh show ?thesis unfolding hdr
      by (auto simp: get_data_shape_in_file_def getkey_def Let_def distinct_count
          split: sum.splits if_splits option.splits)
  qed
  have raise: "get_data_shape_in_file h
                 = Inl (PARRECError (SliceCount (card (slice_number ` set (image_defs h))) ms))"
    if "max_diffusion_values (general_info h) = Some mdv"
      "max_gradient_orient (general_info h) = Some mgo"
      "max_slices (general_info h) = Some ms"
      "int (card (slice_number ` set (image_defs h))) \<noteq> ms"
    using that by (simp add: get_data_shape_in_file_def getkey_def Let_def distinct_count)
  show ?thesis using init raise by blast
qed

theorem C5_slice_count_witness:
  "PARRECHeader_init phantom_info phantom_defs ''dv'' = Inr (phantom_header ''dv'')
 \<and> max_slices (general_info (phantom_header ''dv'')) = Some 3
 \<and> card (slice_number ` set (image_defs (phantom_header ''dv''))) = 3
 \<and> get_data_shape_in_file (new_self (phantom_info\<lparr>max_slices := Some 2\<rparr>) phantom_defs)
      = Inl (PARRECError (SliceCount 3 2))"
proof -
  let ?h = "new_self (phantom_info\<lparr>max_slices := Some 2\<rparr>) phantom_defs"
  have card3: "card (slice_number ` set phantom_defs) = 3"
    by (simp add: phantom_simps)
  have keys: "max_diffusion_values (general_info ?h) = Some 1
      \<and> max_gradient_orient (general_info ?h) = Some 1
      \<and> max_slices (general_info ?h) = Some 2
      \<and> int (card (slice_number ` set (image_defs ?h))) \<noteq> 2"
    using card3 by (simp add: new_self_def phantom_info_def)
  have defs: "image_defs ?h = phantom_defs" "image_defs (phantom_header ''dv'') = phantom_defs"
    by (simp_all add: new_self_def phantom_header_def)
  from C5_slice_count[of phantom_info phantom_defs "''dv''" "phantom_header ''dv''" ?h 1 1 2]
    phantom_init[of "''dv''"] keys card3
  show ?thesis by (simp add: defs)
qed

text \<open>
  C2. The claim: whenever two or more of \<open>ndyn > 1\<close>, \<open>ndti > 1\<close>, \<open>nechoes > 1\<close> hold,
  \<open>get_data_shape_in_file\<close> raises the RuntimeError of the ambiguous fourth axis. The
  comparison of the slice count with \<open>max_slices\<close> comes first: a header with three
  dynamics and two echoes whose table has one slice and whose general information
  declares two raises the PARRECError of the header inconsistency instead.
\<close>

theorem C2_slice_check_comes_first:
  "1 < ndynamics (new_self (phantom_info\<lparr>max_slices := Some 2\<rparr>) multi_defs)
 \<and> 1 < nechos (new_self (phantom_info\<lparr>max_slices := Some 2\<rparr>) multi_defs)
 \<and> get_data_shape_in_file (new_self (phantom_info\<lparr>max_slices := Some 2\<rparr>) multi_defs)
      = Inl (PARRECError (SliceCount 1 2))
 \<and> get_data_shape_in_file (new_self (phantom_info\<lparr>max_slices := Some 2\<rparr>) multi_defs)
      \<noteq> Inl RuntimeError"
  by (simp add: phantom_simps get_data_shape_in_file_def getkey_def column_def np_unique_def)

text \<open>
  C2, amended. For a header whose general information has the keys
  \<open>max_diffusion_values\<close>, \<open>max_gradient_orient\<close> and \<open>max_slices\<close>, with
  \<open>ndti = (max_diffusion_values - 1) * max_gradient_orient\<close>. When the table's count of
  distinct slice numbers differs from \<open>max_slices\<close>, \<open>get_data_shape_in_file\<close> raises the
  PARRECError of the header inconsistency, whatever the three counts are. When it equals
  \<open>max_slices\<close>: if two or more of \<open>ndyn > 1\<close>, \<open>ndti > 1\<close>, \<open>nechoes > 1\<close> hold, it raises
  RuntimeError; otherwise it raises what the check of \<open>recon resolution\<close> raises, if that
  check raises, and else it returns a shape, which after its two in-plane entries
  consists of the slice count followed by the one of \<open>ndyn\<close>, \<open>ndti\<close>, \<open>nechoes\<close> that
  exceeds one, or by nothing when none does (three axes). What the two in-plane entries
  are is left to the check of \<open>recon resolution\<close>.
\<close>

theorem C2_fourth_axis:
  assumes "max_diffusion_values (general_info h) = Some mdv"
    and "max_gradient_orient (general_info h) = Some mgo"
    and "max_slices (general_info h) = Some ms"
  shows "(int (nslices h) \<noteq> ms \<longrightarrow>
            get_data_shape_in_file h = Inl (PARRECError (SliceCount (nslices h) ms)))
       \<and> (int (nslices h) = ms \<longrightarrow>
            ((1 < ndynamics h \<and> 1 < (mdv - 1) * mgo) \<or> (1 < ndynamics h \<and> 1 < nechos h)
                \<or> (1 < (mdv - 1) * mgo \<and> 1 < nechos h) \<longrightarrow>
             get_data_shape_in_file h = Inl RuntimeError)
          \<and> (\<not> ((1 < ndynamics h \<and> 1 < (mdv - 1) * mgo) \<or> (1 < ndynamics h \<and> 1 < nechos h)
                  \<or> (1 < (mdv - 1) * mgo \<and> 1 < nechos h)) \<longrightarrow>
               (\<forall>e. get_unique_image_prop ''recon resolution''
                       (column2 recon_resolution (image_defs h)) = Inl e \<longrightarrow>
                    get_data_shape_in_file h = Inl e)
             \<and> (\<forall>ip. get_unique_image_prop ''recon resolution''
                        (column2 recon_resolution (image_defs h)) = Inr ip \<longrightarrow>
                    (\<exists>shape. get_data_shape_in_file h = Inr shape
                       \<and> length shape = (if 1 < ndynamics h \<or> 1 < (mdv - 1) * mgo
                                             \<or> 1 < nechos h then 4 else 3)
                       \<and> drop 2 shape = int (nslices h) #
                           (if 1 < ndynamics h then [int (ndynamics h)]
                            else if 1 < (mdv - 1) * mgo then [(mdv - 1) * mgo]
                            else if 1 < nechos h then [int (nechos h)]
                            else [])))))"
proof -
  have len2: "length ip = 2"
    if "get_unique_image_prop ''recon resolution''
          (column2 recon_resolution (image_defs h)) = Inr ip" for ip
    using that by (simp add: column2_def unique_Arr2_length)
  have mismatch: "get_data_shape_in_file h = Inl (PARRECError (SliceCount (nslices h) ms))"
    if "int (nslices h) \<noteq> ms"
    using assms that by (simp add: get_data_shape_in_file_def getkey_def Let_def)
  have ambiguous: "get_data_shape_in_file h = Inl RuntimeError"
    if "int (nslices h) = ms"
      "(1 < ndynamics h \<and> 1 < (mdv - 1) * mgo) \<or> (1 < ndynamics h \<and> 1 < nechos h)
         \<or> (1 < (mdv - 1) * mgo \<and> 1 < nechos h)"
    using assms that by (auto simp: get_data_shape_in_file_def getkey_def Let_def)
  have rest: "get_data_shape_in_file h =
      (case get_unique_image_prop ''recon resolution''
              (column2 recon_resolution (image_defs h)) of
         Inl e \<Rightarrow> Inl e
       | Inr ip \<Rightarrow>
           Inr (ip @ int (nslices h) #
                  (if 1 < ndynamics h then [int (ndynamics h)]
                   else if 1 < (mdv - 1) * mgo then [(mdv - 1) * mgo]
                   else if 1 < nechos h then [int (nechos h)]
                   else [])))"
    if "int (nslices h) = ms"
      "\<not> ((1 < ndynamics h \<and> 1 < (mdv - 1) * mgo) \<or> (1 < ndynamics h \<and> 1 < nechos h)
          \<or> (1 < (mdv - 1) * mgo \<and> 1 < nechos h))"
    using assms that
    by (auto simp: get_data_shape_in_file_def getkey_def Let_def split: sum.splits)
  show ?thesis
  proof (intro conjI impI allI)
    assume "int (nslices h) \<noteq> ms"
    then show "get_data_shape_in_file h = Inl (PARRECError (SliceCount (nslices h) ms))"
      by (rule mismatch)
  next
    assume "int (nslices h) = ms"
      "(1 < ndynamics h \<and> 1 < (mdv - 1) * mgo) \<or> (1 < ndynamics h \<and> 1 < nechos h)
         \<or> (1 < (mdv - 1) * mgo \<and> 1 < nechos h)"
    then show "get_data_shape_in_file h = Inl RuntimeError" by (rule ambiguous)
  next
    fix e
    assume a: "int (nslices h) = ms"
      "\<not> ((1 < ndynamics h \<and> 1 < (mdv - 1) * mgo) \<or> (1 < ndynamics h \<and> 1 < nechos h)
          \<or> (1 < (mdv - 1) * mgo \<and> 1 < nechos h))"
      and e: "get_unique_image_prop ''recon resolution''
                (column2 recon_resolution (image_defs h)) = Inl e"
    show "get_data_shape_in_file h = Inl e"
      by (simp add: rest[OF a] e)
  next
    fix ip
    assume a: "int (nslices h) = ms"
      "\<not> ((1 < ndynamics h \<and> 1 < (mdv - 1) * mgo) \<or> (1 < ndynamics h \<and> 1 < nechos h)
          \<or> (1 < (mdv - 1) * mgo \<and> 1 < nechos h))"
      and ip: "get_unique_image_prop ''recon resolution''
                (column2 recon_resolution (image_defs h)) = Inr ip"
    show "\<exists>shape. get_data_shape_in_file h = Inr shape
            \<and> length shape = (if 1 < ndynamics h \<or> 1 < (mdv - 1) * mgo
                                  \<or> 1 < nechos h then 4 else 3)
            \<and> drop 2 shape = int (nslices h) #
                (if 1 < ndynamics h then [int (ndynamics h)]
                 else if 1 < (mdv - 1) * mgo then [(mdv - 1) * mgo]
                 else if 1 < nechos h then [int (nechos h)]
                 else [])"
      using len2[OF ip] by (simp add: rest[OF a] ip)
  qed
qed

text \<open>
  Three dynamics with two echoes raise RuntimeError; five dynamics give a fourth axis of
  length 5; one dynamic, one echo and no diffusion give three axes; three slices where
  \<open>max_slices\<close> is 2 raise the PARRECError.
\<close>

theorem C2_fourth_axis_witness:
  "get_data_shape_in_file (new_self (phantom_info\<lparr>max_slices := Some 1\<rparr>) multi_defs)
     = Inl RuntimeError
 \<and> get_data_shape_in_file
      (new_self (phantom_info\<lparr>max_slices := Some 1, max_dynamics := Some 5\<rparr>) dynamic_defs)
     = Inr [64, 64, 1, 5]
 \<and> get_data_shape_in_file (new_self phantom_info phantom_defs) = Inr [64, 64, 3]
 \<and> get_data_shape_in_file (new_self (phantom_info\<lparr>max_slices := Some 2\<rparr>) phantom_defs)
     = Inl (PARRECError (SliceCount 3 2))"
proof -
  let ?m = "new_self (phantom_info\<lparr>max_slices := Some 1\<rparr>) multi_defs"
  let ?d = "new_self (phantom_info\<lparr>max_slices := Some 1, max_dynamics := Some 5\<rparr>) dynamic_defs"
  let ?p = "new_self phantom_info phantom_defs"
  let ?s = "new_self (phantom_info\<lparr>max_slices := Some 2\<rparr>) phantom_defs"
  have m: "ndynamics ?m = 3" "nechos ?m = 2" "nslices ?m = 1"
    by (simp_all add: phantom_simps column_def np_unique_def)
  have d: "ndynamics ?d = 5" "nechos ?d = 1" "nslices ?d = 1"
    by (simp_all add: phantom_simps column_def np_unique_def)
  have p: "ndynamics ?p = 1" "nechos ?p = 1" "nslices ?p = 3"
    by (simp_all add: phantom_simps column_def np_unique_def)
  have s: "nslices ?s = 3"
    by (simp add: phantom_simps column_def np_unique_def)
  have recon: "get_unique_image_prop ''recon resolution''
                 (column2 recon_resolution (image_defs h)) = Inr [64, 64]"
    if "h = ?d \<or> h = ?p" for h :: parrec_self
    using that by (auto simp: phantom_simps column2_def unique_Arr2 np_unique_def)
  have rd: "get_data_shape_in_file ?d = Inr [64, 64, 1, 5]"
    by (simp add: phantom_simps get_data_shape_in_file_def getkey_def column_def column2_def
        np_unique_def unique_Arr2)
  have rp: "get_data_shape_in_file ?p = Inr [64, 64, 3]"
    by (simp add: phantom_simps get_data_shape_in_file_def getkey_def column_def column2_def
        np_unique_def unique_Arr2)
  have "get_data_shape_in_file ?m = Inl RuntimeError"
    using C2_fourth_axis[of ?m 1 1 1] m by (simp add: new_self_def phantom_info_def)
  moreover have "get_data_shape_in_file ?d = Inr [64, 64, 1, 5]"
    using C2_fourth_axis[of ?d 1 1 1] d recon[of ?d] rd
    by (simp add: new_self_def phantom_info_def)
  moreover have "get_data_shape_in_file ?p = Inr [64, 64, 3]"
    using C2_fourth_axis[of ?p 1 1 3] p recon[of ?p] rp
    by (simp add: new_self_def phantom_info_def)
  moreover have "get_data_shape_in_file ?s = Inl (PARRECError (SliceCount 3 2))"
    using C2_fourth_axis[of ?s 1 1 2] s by (simp add: new_self_def phantom_info_def)
  ultimately show ?thesis by simp
qed

subsection \<open>Voxel sizes and zooms\<close>

text \<open>
  C6. The claim: for every header passing the homogeneity checks, \<open>get_voxel_size\<close>
  returns \<open>(pixel_spacing_x, pixel_spacing_y, slice_thickness)\<close>, and \<open>_get_zooms\<close> the same
  with the gap added to the third entry. The three slices below all carry pixel spacing
  \<open>(3.75, 2)\<close>, slice thickness 6 and slice gap 2, yet \<open>get_voxel_size\<close> and \<open>_get_zooms\<close>
  raise the PARRECError of a varying pixel spacing, since the uniqueness check compares
  the two elements inside an image (the defect of C1); and on a table of one image, which
  is as homogeneous as a table can be, they raise IndexError.
\<close>

theorem C6_voxel_size_fails_on_homogeneous_headers:
  "map pixel_spacing nonsquare_defs = [(3.75, 2), (3.75, 2), (3.75, 2)]
 \<and> map slice_thickness nonsquare_defs = [6, 6, 6]
 \<and> map slice_gap nonsquare_defs = [2, 2, 2]
 \<and> get_voxel_size (new_self phantom_info nonsquare_defs)
      = Inl (PARRECError (Varying ''pixel spacing''))
 \<and> get_zooms_from_header (new_self phantom_info nonsquare_defs)
      = Inl (PARRECError (Varying ''pixel spacing''))
 \<and> get_voxel_size (new_self (phantom_info\<lparr>max_slices := Some 1\<rparr>) [phantom_image 1 1 1])
      = Inl IndexError
 \<and> get_zooms_from_header
      (new_self (phantom_info\<lparr>max_slices := Some 1\<rparr>) [phantom_image 1 1 1])
      = Inl IndexError"
  by (simp add: phantom_simps get_voxel_size_def get_zooms_from_header_def get_ndim_def
      getkey_def unique_Arr1 unique_Arr2 column_def column2_def np_unique_def index_def)

text \<open>
  What the two methods do on the headers that the check of \<open>pixel spacing\<close> accepts:
  \<open>get_voxel_size\<close> returns the pixel spacing and the slice thickness, without the gap,
  and \<open>_get_zooms\<close> adds the gap to the third entry and, when \<open>get_ndim\<close> is 4, appends
  \<open>repetition_time / 1000\<close> if \<open>max_dynamics > 1\<close> and 1 otherwise.
\<close>

lemma voxel_size_and_zooms_checked:
  assumes "\<forall>d\<in>set (image_defs h).
             pixel_spacing d = (px, py) \<and> slice_thickness d = t \<and> slice_gap d = g"
    and "\<not> isl (get_unique_image_prop ''pixel spacing'' (column2 pixel_spacing (image_defs h)))"
    and "get_ndim h = Inr n"
    and "max_dynamics (general_info h) = Some md"
    and "1 < md \<longrightarrow> repetition_time (general_info h) = Some tr"
  shows "get_voxel_size h = Inr [px, py, t]
       \<and> get_zooms_from_header h
           = Inr ([px, py, t + g] @ (if n = 4 then [if 1 < md then tr / 1000 else 1] else []))
       \<and> (n = 3 \<or> n = 4)"
proof -
  from assms(2) have ne: "image_defs h \<noteq> []"
    by (auto simp: column2_def unique_Arr2 split: if_splits)
  have th: "get_unique_image_prop ''slice thickness'' (column slice_thickness (image_defs h))
              = Inr [t]"
    using assms(1) ne by (intro unique_column_const) auto
  have gp: "get_unique_image_prop ''slice gap'' (column slice_gap (image_defs h)) = Inr [g]"
    using assms(1) ne by (intro unique_column_const) auto
  have ps: "get_unique_image_prop ''pixel spacing'' (column2 pixel_spacing (image_defs h))
              = Inr [px, py]"
    using assms(1,2) by (intro unique_column2_const) auto
  have vox: "get_voxel_size h = Inr [px, py, t]"
    by (simp add: get_voxel_size_def th ps index_def)
  have n: "n = 3 \<or> n = 4"
    using assms(3) by (auto simp: get_ndim_def split: sum.splits if_splits)
  have zooms: "get_zooms_from_header h
           = Inr ([px, py, t + g] @ (if n = 4 then [if 1 < md then tr / 1000 else 1] else []))"
    using n assms(3,4,5)
    by (auto simp: get_zooms_from_header_def gp vox index_def getkey_def Let_def
        numeral_3_eq_3 numeral_eq_Suc)
  show ?thesis using vox zooms n by simp
qed


lemma voxel_size_and_zooms_phantom:
  "get_voxel_size (new_self phantom_info phantom_defs) = Inr [3.75, 3.75, 6]
 \<and> get_zooms_from_header (new_self phantom_info phantom_defs) = Inr [3.75, 3.75, 8]
 \<and> get_zooms_from_header
      (new_self (phantom_info\<lparr>max_slices := Some 1, max_dynamics := Some 5\<rparr>) dynamic_defs)
     = Inr [3.75, 3.75, 8, 2]
 \<and> get_zooms_from_header (new_self (phantom_info\<lparr>max_echoes := Some 2\<rparr>) phantom_defs)
     = Inr [3.75, 3.75, 8, 1]"
proof -
  let ?p = "new_self phantom_info phantom_defs"
  let ?d = "new_self (phantom_info\<lparr>max_slices := Some 1, max_dynamics := Some 5\<rparr>) dynamic_defs"
  let ?e = "new_self (phantom_info\<lparr>max_echoes := Some 2\<rparr>) phantom_defs"
  have hom: "\<forall>d\<in>set (image_defs h).
               pixel_spacing d = (3.75, 3.75) \<and> slice_thickness d = 6 \<and> slice_gap d = 2"
    if "h = ?p \<or> h = ?d \<or> h = ?e" for h :: parrec_self
    using that by (auto simp: phantom_simps)
  have pass: "\<not> isl (get_unique_image_prop ''pixel spacing''
                        (column2 pixel_spacing (image_defs h)))"
    if "h = ?p \<or> h = ?d \<or> h = ?e" for h :: parrec_self
    using that by (auto simp: phantom_simps column2_def unique_Arr2 np_unique_def)
  have nd: "get_ndim ?p = Inr 3" "get_ndim ?d = Inr 4" "get_ndim ?e = Inr 4"
    by (simp_all add: get_ndim_def getkey_def phantom_simps)
  have p: "get_voxel_size ?p = Inr [3.75, 3.75, 6]
         \<and> get_zooms_from_header ?p = Inr [3.75, 3.75, 8]"
    using voxel_size_and_zooms_checked[of ?p "3.75" "3.75" 6 2 3 1 2000, OF hom pass nd(1)]
    by (simp add: new_self_def phantom_info_def)
  have d: "get_zooms_from_header ?d = Inr [3.75, 3.75, 8, 2]"
    using voxel_size_and_zooms_checked[of ?d "3.75" "3.75" 6 2 4 5 2000, OF hom pass nd(2)]
    by (simp add: new_self_def phantom_info_def)
  have e: "get_zooms_from_header ?e = Inr [3.75, 3.75, 8, 1]"
    using voxel_size_and_zooms_checked[of ?e "3.75" "3.75" 6 2 4 1 2000, OF hom pass nd(3)]
    by (simp add: new_self_def phantom_info_def)
  show ?thesis using p d e by simp
qed

subsection \<open>The affine\<close>

text \<open>
  Adding the offset changes the fourth column of the first three rows and nothing else,
  and the product with \<open>PSL_TO_RAS\<close> takes column \<open>j\<close> of its right factor to column \<open>j\<close>
  of the result.
\<close>

lemma ncols_add_translation: "ncols (add_translation m off) = ncols m"
  by (cases m; cases off) (simp_all add: ncols_def add_translation_def)

lemma length_add_translation: "length (add_translation m off) = length m"
  by (cases off) (simp add: add_translation_def)

lemma col_add_translation:
  assumes "j \<noteq> 3"
  shows "map (\<lambda>r. r ! j) (add_translation m off) = map (\<lambda>r. r ! j) m"
proof (rule nth_equalityI)
  show "length (map (\<lambda>r. r ! j) (add_translation m off)) = length (map (\<lambda>r. r ! j) m)"
    by (simp add: length_add_translation)
next
  fix i assume "i < length (map (\<lambda>r. r ! j) (add_translation m off))"
  then have i: "i < length m" by (simp add: length_add_translation)
  obtain a b c where off: "off = (a, b, c)" by (cases off)
  show "map (\<lambda>r. r ! j) (add_translation m off) ! i = map (\<lambda>r. r ! j) m ! i"
    using i assms
    by (cases "i = 0"; cases "i = 1"; cases "i = 2")
       (simp_all add: off add_translation_def nth_list_update)
qed

lemma set_take3_upt: "j \<in> set (take 3 [0..<n]) \<Longrightarrow> j < 3"
  by (cases "3 \<le> n") auto

lemma np_dot_block:
  "map (take 3) (np_dot a (add_translation m off)) = map (take 3) (np_dot a m)"
proof -
  have "take 3 (map (\<lambda>j. sum_list (map2 (*) r (map (\<lambda>br. br ! j) (add_translation m off))))
                 [0..<ncols m])
      = take 3 (map (\<lambda>j. sum_list (map2 (*) r (map (\<lambda>br. br ! j) m))) [0..<ncols m])" for r
    unfolding take_map
    by (rule map_cong[OF refl]) (auto dest!: set_take3_upt simp: col_add_translation)
  then show ?thesis
    by (simp add: np_dot_def ncols_add_translation)
qed


lemma np_dot_last_row:
  "np_dot PSL_TO_RAS (add_translation m off) ! 3 = np_dot PSL_TO_RAS m ! 3"
proof -
  obtain a b c where off: "off = (a, b, c)" by (cases off)
  have "sum_list (map2 (*) [0, 0, 0, 1] (map (\<lambda>br. br ! j) (add_translation m off)))
      = sum_list (map2 (*) [0, 0, 0, 1::real] (map (\<lambda>br. br ! j) m))" for j
  proof (cases m)
    case Nil
    then show ?thesis by (simp add: add_translation_def off)
  next
    case m1: (Cons r0 m1)
    show ?thesis
    proof (cases m1)
      case Nil
      with m1 show ?thesis by (simp add: add_translation_def off)
    next
      case m2: (Cons r1 m2)
      show ?thesis
      proof (cases m2)
        case Nil
        with m1 m2 show ?thesis by (simp add: add_translation_def off)
      next
        case m3: (Cons r2 m3)
        with m1 m2 show ?thesis
          by (cases m3) (simp_all add: add_translation_def off numeral_2_eq_2)
      qed
    qed
  qed
  then show ?thesis
    by (simp add: np_dot_def PSL_TO_RAS_def ncols_add_translation)
qed

lemma length_np_dot: "length (np_dot a b) = length a"
  by (simp add: np_dot_def)

text \<open>
  C3. When \<open>get_affine\<close> returns a matrix for the origin \<^verbatim>\<open>'scanner'\<close> and one for the
  origin \<^verbatim>\<open>'fov'\<close>, on the same header and whatever the rotation that \<open>euler2mat\<close> gives,
  the two matrices have four rows, agree on the first three entries of every row (the
  3x3 block and the zeros below it) and on the whole last row: they differ at most in
  the first three entries of the last column.
\<close>

theorem C3_affine_block:
  assumes "fst (get_affine euler2mat ''scanner'' h) = Inr A"
    and "fst (get_affine euler2mat ''fov'' h) = Inr B"
  shows "length A = 4 \<and> length B = 4 \<and> map (take 3) A = map (take 3) B \<and> A ! 3 = B ! 3"
  using assms
  by (auto simp: get_affine_def Let_def np_dot_block np_dot_last_row length_np_dot
           split: prod.splits sum.splits option.splits if_splits)
     (simp_all add: PSL_TO_RAS_def)

text \<open>Matrices of four rows and four columns, written out.\<close>

lemma upt_3: "[0..<3] = [0, 1, 2]"
  by (simp add: upt_rec)

lemma upt_4: "[0..<4] = [0, 1, 2, 3]"
  by (simp add: upt_rec)

lemma eye_3: "eye 3 = [[1, 0, 0], [0, 1, 0], [0, 0, 1]]"
  by (simp add: eye_def upt_3)

lemma from_matvec_3:
  "from_matvec [[a, b, c], [d, e, f], [g, h, i]] [x, y, z]
     = [[a, b, c, x], [d, e, f, y], [g, h, i, z], [0, 0, 0, 1]]"
  by (simp add: from_matvec_def numeral_3_eq_3)

lemma np_diag_4:
  "np_diag [a, b, c, d] = [[a, 0, 0, 0], [0, b, 0, 0], [0, 0, c, 0], [0, 0, 0, d]]"
  by (simp add: np_diag_def upt_4)

lemma np_dot_4:
  "np_dot [[a11, a12, a13, a14], [a21, a22, a23, a24],
           [a31, a32, a33, a34], [a41, a42, a43, a44]]
          [[b11, b12, b13, b14], [b21, b22, b23, b24],
           [b31, b32, b33, b34], [b41, b42, b43, b44]]
   = [[a11 * b11 + a12 * b21 + a13 * b31 + a14 * b41,
       a11 * b12 + a12 * b22 + a13 * b32 + a14 * b42,
       a11 * b13 + a12 * b23 + a13 * b33 + a14 * b43,
       a11 * b14 + a12 * b24 + a13 * b34 + a14 * b44],
      [a21 * b11 + a22 * b21 + a23 * b31 + a24 * b41,
       a21 * b12 + a22 * b22 + a23 * b32 + a24 * b42,
       a21 * b13 + a22 * b23 + a23 * b33 + a24 * b43,
       a21 * b14 + a22 * b24 + a23 * b34 + a24 * b44],
      [a31 * b11 + a32 * b21 + a33 * b31 + a34 * b41,
       a31 * b12 + a32 * b22 + a33 * b32 + a34 * b42,
       a31 * b13 + a32 * b23 + a33 * b33 + a34 * b43,
       a31 * b14 + a32 * b24 + a33 * b34 + a34 * b44],
      [a41 * b11 + a42 * b21 + a43 * b31 + a44 * b41,
       a41 * b12 + a42 * b22 + a43 * b32 + a44 * b42,
       a41 * b13 + a42 * b23 + a43 * b33 + a44 * b43,
       a41 * b14 + a42 * b24 + a43 * b34 + a44 * b44]]"
  by (simp add: np_dot_def ncols_def upt_4)

lemma add_translation_4:
  "add_translation [[a11, a12, a13, a14], [a21, a22, a23, a24],
                    [a31, a32, a33, a34], [a41, a42, a43, a44]] (x, y, z)
   = [[a11, a12, a13, a14 + x], [a21, a22, a23, a24 + y],
      [a31, a32, a33, a34 + z], [a41, a42, a43, a44]]"
  by (simp add: add_translation_def)


lemma phantom_orientation:
  "get_slice_orientation (phantom_header sc)
     = (Inr ''transverse'', (phantom_header sc)\<lparr>cached_slice_orientation := Some ''transverse''\<rparr>)"
  by (simp add: get_slice_orientation_def phantom_simps unique_Arr1 column_def np_unique_def
      index_def label_def slice_orientation_codes_def)

lemma phantom_fields:
  "get_data_shape (phantom_header sc) = [64, 64, 3]"
  "get_zooms (phantom_header sc) = [3.75, 3.75, 8]"
  "angulation (general_info (phantom_header sc)) = Some (0, 0, 0)"
  "off_center (general_info (phantom_header sc)) = Some (2.51, 6.98, -10.53)"
  by (simp_all add: get_data_shape_def get_zooms_def phantom_header_def phantom_info_def)

lemma phantom_affine:
  "get_affine (\<lambda>z y x. eye 3) origin (phantom_header sc)
     = (Inr (if origin = ''scanner''
             then [[- 3.75, 0, 0, 128.655], [0, - 3.75, 0, 115.615],
                   [0, 0, 8, - 1.02], [0, 0, 0, 1]]
             else [[- 3.75, 0, 0, 118.125], [0, - 3.75, 0, 118.125],
                   [0, 0, 8, - 8], [0, 0, 0, 1]]),
        (phantom_header sc)\<lparr>cached_slice_orientation := Some ''transverse''\<rparr>)"
proof -
  have center: "map (\<lambda>s. - (real_of_int s - 1) / 2) (take 3 [64, 64, 3]) = [- 31.5, - 31.5, - 1]"
    by simp
  have zoom: "take 3 [3.75, 3.75, 8 :: real] @ [1] = [3.75, 3.75, 8, 1]"
    by simp
  have acq: "ACQ_TO_PSL ''transverse''
               = Some [[0, 1, 0, 0], [0, 0, 1, 0], [1, 0, 0, 0], [0, 0, 0, 1]]"
    by (simp add: ACQ_TO_PSL_def)
  show ?thesis
    unfolding get_affine_def Let_def phantom_orientation phantom_fields center zoom
      prod.case sum.case acq option.case
    by (simp add: getkey_def phantom_fields eye_3 from_matvec_3 np_diag_4 np_dot_4
        add_translation_4 PSL_TO_RAS_def)
qed

text \<open>
  The phantom header, with no angulation (so that the rotation is the identity): the two
  affines, and their common block.
\<close>

theorem C3_affine_block_witness:
  "fst (get_affine (\<lambda>z y x. eye 3) ''scanner'' (phantom_header ''dv''))
     = Inr [[- 3.75, 0, 0, 128.655], [0, - 3.75, 0, 115.615], [0, 0, 8, - 1.02], [0, 0, 0, 1]]
 \<and> fst (get_affine (\<lambda>z y x. eye 3) ''fov'' (phantom_header ''dv''))
     = Inr [[- 3.75, 0, 0, 118.125], [0, - 3.75, 0, 118.125], [0, 0, 8, - 8], [0, 0, 0, 1]]
 \<and> map (take 3) [[- 3.75, 0, 0, 128.655], [0, - 3.75, 0, 115.615], [0, 0, 8, - 1.02],
                  [0, 0, 0, 1 :: real]]
     = map (take 3) [[- 3.75, 0, 0, 118.125], [0, - 3.75, 0, 118.125], [0, 0, 8, - 8],
                     [0, 0, 0, 1]]"
proof -
  have s: "fst (get_affine (\<lambda>z y x. eye 3) ''scanner'' (phantom_header ''dv''))
     = Inr [[- 3.75, 0, 0, 128.655], [0, - 3.75, 0, 115.615], [0, 0, 8, - 1.02], [0, 0, 0, 1]]"
    by (simp add: phantom_affine)
  have f: "fst (get_affine (\<lambda>z y x. eye 3) ''fov'' (phantom_header ''dv''))
     = Inr [[- 3.75, 0, 0, 118.125], [0, - 3.75, 0, 118.125], [0, 0, 8, - 8], [0, 0, 0, 1]]"
    by (simp add: phantom_affine)
  from C3_affine_block[OF s f] s f show ?thesis by simp
qed

lemma snd_get_affine: "snd (get_affine em origin h) = snd (get_slice_orientation h)"
  by (auto simp: get_affine_def Let_def split: prod.splits sum.splits option.splits)

lemma get_slice_orientation_again:
  "get_slice_orientation (snd (get_slice_orientation h)) = get_slice_orientation h"
  by (auto simp: get_slice_orientation_def split: option.splits sum.splits)

lemma get_slice_orientation_fields:
  "general_info (snd (get_slice_orientation h)) = general_info h"
  "image_defs (snd (get_slice_orientation h)) = image_defs h"
  "default_scaling (snd (get_slice_orientation h)) = default_scaling h"
  by (auto simp: get_slice_orientation_def split: option.splits sum.splits)

lemma get_slice_orientation_base:
  "get_data_shape (snd (get_slice_orientation h)) = get_data_shape h"
  "get_zooms (snd (get_slice_orientation h)) = get_zooms h"
  by (auto simp: get_slice_orientation_def get_data_shape_def get_zooms_def
      split: option.splits sum.splits)

text \<open>A second call of \<open>get_affine\<close>, on the object that the first call left, gives what it
  gives on the object before the first call: the cache holds the orientation that a
  recomputation finds.\<close>

lemma get_affine_again:
  "get_affine em o2 (snd (get_affine em o1 h)) = get_affine em o2 h"
  unfolding snd_get_affine
  by (simp add: get_affine_def get_slice_orientation_again get_slice_orientation_base)

lemma cache_valid_init: "PARRECHeader_init info defs sc = Inr hdr \<Longrightarrow> cache_valid hdr"
  by (auto simp: PARRECHeader_init_def cache_valid_def Let_def split: sum.splits)

lemma cache_valid_get_slice_orientation:
  "cache_valid h \<Longrightarrow> cache_valid (snd (get_slice_orientation h))"
  by (auto simp: cache_valid_def get_slice_orientation_def split: option.splits sum.splits)

lemma cache_valid_get_affine: "cache_valid h \<Longrightarrow> cache_valid (snd (get_affine em origin h))"
  by (simp add: snd_get_affine cache_valid_get_slice_orientation)

lemma get_slice_orientation_label:
  assumes "image_defs h \<noteq> []"
    and "\<forall>d\<in>set (image_defs h). slice_orientation d = code"
    and "cache_valid h"
  shows "fst (get_slice_orientation h) = label code"
proof -
  have u: "get_unique_image_prop ''slice orientation''
             (column slice_orientation (image_defs h)) = Inr [code]"
    using assms(1,2) by (intro unique_column_const) auto
  have fresh: "fst (get_slice_orientation (h\<lparr>cached_slice_orientation := None\<rparr>)) = label code"
    by (simp add: get_slice_orientation_def u index_def split: sum.splits)
  show ?thesis
  proof (cases "cached_slice_orientation h")
    case None
    then have "h\<lparr>cached_slice_orientation := None\<rparr> = h" by simp
    with fresh show ?thesis by simp
  next
    case (Some l)
    with assms(3) fresh have "label code = Inr l" by (simp add: cache_valid_def)
    with Some show ?thesis by (simp add: get_slice_orientation_def)
  qed
qed

lemma get_affine_orientation_error:
  "fst (get_slice_orientation h) = Inl e \<Longrightarrow> fst (get_affine em origin h) = Inl e"
  by (auto simp: get_affine_def Let_def split: prod.splits sum.splits)

subsection \<open>Slice orientation\<close>

text \<open>
  C7. For a header whose images all carry the slice orientation code \<open>code\<close> and whose
  cache is valid: when the code is none of 1, 2, 3, \<open>get_affine\<close> raises the error of the
  unknown orientation (the failed lookup in \<open>slice_orientation_codes\<close>, inside
  \<open>get_slice_orientation\<close>); for the codes 1, 2 and 3 the orientation is
  \<^verbatim>\<open>'transverse'\<close>, \<^verbatim>\<open>'sagittal'\<close> and \<^verbatim>\<open>'coronal'\<close>.
\<close>

theorem C7_slice_orientation:
  assumes "image_defs h \<noteq> []"
    and "\<forall>d\<in>set (image_defs h). slice_orientation d = code"
    and "cache_valid h"
  shows "(code \<noteq> 1 \<and> code \<noteq> 2 \<and> code \<noteq> 3 \<longrightarrow>
            fst (get_affine em origin h) = Inl (UnknownOrientationError code))
       \<and> (code = 1 \<longrightarrow> fst (get_slice_orientation h) = Inr ''transverse'')
       \<and> (code = 2 \<longrightarrow> fst (get_slice_orientation h) = Inr ''sagittal'')
       \<and> (code = 3 \<longrightarrow> fst (get_slice_orientation h) = Inr ''coronal'')"
proof -
  have l: "fst (get_slice_orientation h) = label code"
    using assms by (rule get_slice_orientation_label)
  have unknown: "fst (get_affine em origin h) = Inl (UnknownOrientationError code)"
    if "code \<noteq> 1" "code \<noteq> 2" "code \<noteq> 3"
  proof -
    from that have "label code = Inl (UnknownOrientationError code)"
      by (simp add: label_def slice_orientation_codes_def)
    with l show ?thesis by (simp add: get_affine_orientation_error)
  qed
  show ?thesis using l unknown by (auto simp: label_def slice_orientation_codes_def)
qed

theorem C7_slice_orientation_witness:
  "fst (get_affine (\<lambda>z y x. eye 3) ''scanner'' (oriented_header 7))
     = Inl (UnknownOrientationError 7)
 \<and> fst (get_slice_orientation (oriented_header 1)) = Inr ''transverse''
 \<and> fst (get_slice_orientation (oriented_header 2)) = Inr ''sagittal''
 \<and> fst (get_slice_orientation (oriented_header 3)) = Inr ''coronal''"
proof -
  have ne: "image_defs (oriented_header c) \<noteq> []" for c
    by (simp add: oriented_header_def phantom_defs_def)
  have hom: "\<forall>d\<in>set (image_defs (oriented_header c)). slice_orientation d = c" for c
    by (simp add: oriented_header_def phantom_defs_def)
  have cv: "cache_valid (oriented_header c)" for c
    by (simp add: cache_valid_def oriented_header_def phantom_header_def)
  from C7_slice_orientation[OF ne hom cv, of 7 "\<lambda>z y x. eye 3" "''scanner''"]
       C7_slice_orientation[OF ne hom cv, of 1]
       C7_slice_orientation[OF ne hom cv, of 2]
       C7_slice_orientation[OF ne hom cv, of 3]
  show ?thesis by simp
qed

text \<open>The labels of the table are keys of \<open>ACQ_TO_PSL\<close>: the PARRECError of \<open>get_affine\<close>
  for an orientation without a permutation is never raised on a header with a valid
  cache.\<close>

lemma label_permutation: "label c = Inr l \<Longrightarrow> ACQ_TO_PSL l \<noteq> None"
  by (auto simp: label_def slice_orientation_codes_def ACQ_TO_PSL_def split: if_splits)

lemma get_slice_orientation_cases:
  assumes "cache_valid h"
  shows "(\<exists>l c. fst (get_slice_orientation h) = Inr l \<and> label c = Inr l)
       \<or> (\<exists>e. fst (get_slice_orientation h) = Inl e
              \<and> (\<forall>s. e \<noteq> PARRECError (UnknownSliceOrientation s)))"
proof (cases "cached_slice_orientation h")
  case (Some l)
  with assms have "fst (get_slice_orientation (h\<lparr>cached_slice_orientation := None\<rparr>)) = Inr l"
    by (simp add: cache_valid_def)
  then have "\<exists>c. label c = Inr l"
    by (auto simp: get_slice_orientation_def split: sum.splits)
  with Some show ?thesis by (simp add: get_slice_orientation_def)
next
  case None
  show ?thesis
  proof (cases "fst (get_slice_orientation h)")
    case (Inr l)
    with None have "\<exists>c. label c = Inr l"
      by (auto simp: get_slice_orientation_def split: sum.splits)
    with Inr show ?thesis by simp
  next
    case (Inl e)
    have u: "get_unique_image_prop n a \<noteq> Inl (PARRECError (UnknownSliceOrientation s))"
      for n s and a :: "int ndarray"
      by (cases a) (auto simp: unique_Arr1 unique_Arr2 split: list.splits)
    have i: "index xs k \<noteq> Inl (PARRECError (UnknownSliceOrientation s))"
      for s k and xs :: "int list"
      by (simp add: index_def)
    have l: "label c \<noteq> Inl (PARRECError (UnknownSliceOrientation s))" for s c
      by (simp add: label_def split: option.splits)
    from Inl None have "\<forall>s. e \<noteq> PARRECError (UnknownSliceOrientation s)"
      using u i l
      by (auto simp: get_slice_orientation_def split: sum.splits)
    with Inl show ?thesis by simp
  qed
qed

lemma get_affine_permutation_known:
  assumes "cache_valid h"
  shows "fst (get_affine em origin h) \<noteq> Inl (PARRECError (UnknownSliceOrientation s))"
proof -
  obtain r h' where gso: "get_slice_orientation h = (r, h')"
    by (cases "get_slice_orientation h")
  from get_slice_orientation_cases[OF assms] gso
  consider (ok) l c where "r = Inr l" "label c = Inr l"
    | (err) e where "r = Inl e" "e \<noteq> PARRECError (UnknownSliceOrientation s)"
    by auto
  then show ?thesis
  proof cases
    case ok
    from label_permutation[OF ok(2)] obtain p where "ACQ_TO_PSL l = Some p" by auto
    with ok(1) gso show ?thesis
      by (auto simp: get_affine_def Let_def getkey_def split: option.splits)
  next
    case err
    with gso show ?thesis by (simp add: get_affine_def Let_def)
  qed
qed

subsection \<open>Copy\<close>

lemma copy_fields:
  assumes "copy h = Inr c"
  shows "general_info c = general_info h" "image_defs c = image_defs h"
    "default_scaling c = ''dv''"
  using assms by (auto simp: copy_def PARRECHeader_init_def Let_def split: sum.splits)

lemma get_data_scaling_cong:
  assumes "image_defs c = image_defs h"
  shows "get_data_scaling c m = get_data_scaling h m"
  unfolding get_data_scaling_def assms by (rule refl)

lemma get_slope_inter_cong:
  assumes "image_defs c = image_defs h" "default_scaling c = default_scaling h"
  shows "get_slope_inter c = get_slope_inter h"
  by (simp add: get_slope_inter_def get_data_scaling_cong[OF assms(1)] assms(2))

text \<open>The copy of a header whose default scaling is \<^verbatim>\<open>'dv'\<close> has the slope and intercept
  of the header.\<close>

lemma copy_dv_slope_inter:
  assumes "copy h = Inr c" "default_scaling h = ''dv''"
  shows "get_slope_inter c = get_slope_inter h"
proof (rule get_slope_inter_cong)
  show "image_defs c = image_defs h" using assms(1) by (rule copy_fields(2))
  show "default_scaling c = default_scaling h"
    using copy_fields(3)[OF assms(1)] assms(2) by simp
qed

lemma phantom_slope_inter:
  "get_slope_inter (phantom_header ''fp'') = Inr (Finite 0.5, Finite 0)"
  "get_slope_inter (phantom_header ''dv'') = Inr (Finite 1.5, Finite 0)"
  by (simp_all add: get_slope_inter_def get_data_scaling_def phantom_simps unique_Arr1
      column_def np_unique_def asscalar_def np_divide_def)

text \<open>
  C9. The claim: the copy of a header has the default slope and intercept of the header,
  whatever default scaling the header was constructed with. \<open>copy\<close> does not pass the
  header's \<open>default_scaling\<close> on, so the copy is constructed with \<^verbatim>\<open>'dv'\<close>: the phantom
  header constructed with \<^verbatim>\<open>'fp'\<close> has slope 0.5, its copy is the phantom header with
  \<^verbatim>\<open>'dv'\<close> and has slope 1.5.
\<close>

theorem C9_copy_drops_default_scaling:
  "PARRECHeader_init phantom_info phantom_defs ''fp'' = Inr (phantom_header ''fp'')
 \<and> get_slope_inter (phantom_header ''fp'') = Inr (Finite 0.5, Finite 0)
 \<and> copy (phantom_header ''fp'') = Inr (phantom_header ''dv'')
 \<and> get_slope_inter (phantom_header ''dv'') = Inr (Finite 1.5, Finite 0)"
proof -
  have "copy (phantom_header ''fp'') = PARRECHeader_init phantom_info phantom_defs ''dv''"
    by (simp add: copy_def phantom_header_def)
  then show ?thesis by (simp add: phantom_init phantom_slope_inter)
qed

subsection \<open>The parser\<close>

lemma int_literal_examples:
  "int_literal ''x'' = None" "int_literal ''16'' = Some 16" "int_literal ''-3'' = Some (-3)"
  by (simp_all add: int_literal_def strip_sign_def is_digit_def)

lemma float_literal_examples:
  "float_literal ''4.28404e-003'' = Some (Finite 0.00428404)"
  "float_literal ''-13.26'' = Some (Finite (-13.26))"
  "float_literal ''6.000'' = Some (Finite 6)"
  "float_literal ''1e'' = None"  "float_literal ''.'' = None" "float_literal ''5.'' = Some (Finite 5)"
  by (simp_all add: float_literal_def int_literal_def strip_sign_def is_digit_def Let_def)

lemma py_split_example: "py_split ''  1   1  2 '' = [''1'', ''1'', ''2'']"
  by (simp add: py_split_def is_space_def)

lemma py_strip_example: "py_strip ''  . a : b  '' = ''. a : b''"
  by (simp add: py_strip_def is_space_def)

lemma required_tokens_dtd: "required_tokens image_def_dtd = 49"
  by (simp add: required_tokens_def image_def_dtd_def ntokens_def)

lemma sequence_Inl: "sequence ms = Inl e \<Longrightarrow> Inl e \<in> set ms"
  by (induction ms rule: sequence.induct) (auto split: sum.splits)

lemma sequence_isl: "Inl e \<in> set ms \<Longrightarrow> isl (sequence ms)"
  by (induction ms rule: sequence.induct) (auto split: sum.splits)

lemma dtd_distinct: "distinct (map props0 image_def_dtd)"
  by (simp add: image_def_dtd_def)

lemma field_dtype_distinct:
  assumes "distinct (map props0 dtd)" "p \<in> set dtd"
  shows "map_of (map (\<lambda>p. (props0 p, dtype_of p)) dtd) (props0 p) = Some (dtype_of p)"
proof -
  have "distinct (map fst (map (\<lambda>p. (props0 p, dtype_of p)) dtd))"
    using assms(1) by (simp add: comp_def)
  moreover have "(props0 p, dtype_of p) \<in> set (map (\<lambda>p. (props0 p, dtype_of p)) dtd)"
    using assms(2) by auto
  ultimately show ?thesis by (rule map_of_is_SomeI)
qed

lemma field_is_bytes_dtd:
  assumes "p \<in> set image_def_dtd"
  shows "field_is_bytes image_def_dtd (props0 p) = (dtype_of p = Some S30)"
  using field_dtype_distinct[OF dtd_distinct assms]
  by (auto simp: field_is_bytes_def split: option.splits pytype.splits)

lemma call_type_errors: "call_type lib t s = Inl e \<Longrightarrow> e = ValueError \<or> (t = S30 \<and> e = TypeError)"
  by (auto simp: call_type_def split: pytype.splits option.splits)

lemma store_scalar_errors: "store_scalar v = Inl e \<Longrightarrow> e = OverflowError"
  by (auto simp: store_scalar_def split: pyval.splits if_splits)

lemma store_array_errors: "store_array n v = Inl e \<Longrightarrow> e = ValueError"
  by (auto simp: store_array_def split: if_splits)

lemma index_errors: "index xs i = Inl e \<Longrightarrow> e = IndexError \<and> length xs \<le> i"
  by (auto simp: index_def split: if_splits)

text \<open>The loop body on a field of the table, by the kind of the field.\<close>

lemma parse_prop_dtd:
  assumes "p \<in> set image_def_dtd"
  shows "parse_prop lib image_def_dtd items (k, r) p =
     (if dtype_of p = Some S30
      then (case index items k of
              Inl e \<Rightarrow> Inl e
            | Inr tok \<Rightarrow> Inr (k + 1, r(props0 p \<mapsto> BytesV (take 30 tok))))
      else (case p of
              P1 name \<Rightarrow> Inr (k, r)
            | P2 name t \<Rightarrow>
                (case index items k of
                   Inl e \<Rightarrow> Inl e
                 | Inr tok \<Rightarrow>
                (case call_type lib t tok of
                   Inl e \<Rightarrow> Inl e
                 | Inr v \<Rightarrow>
                (case store_scalar v of
                   Inl e \<Rightarrow> Inl e
                 | Inr v' \<Rightarrow> Inr (k + 1, r(name \<mapsto> v')))))
            | P3 name t shape \<Rightarrow>
                (case np_fromstring lib t (py_join (take (prod_list shape) (drop k items))) of
                   None \<Rightarrow> Inl ValueError
                 | Some v \<Rightarrow>
                (case store_array (prod_list shape) v of
                   Inl e \<Rightarrow> Inl e
                 | Inr a \<Rightarrow> Inr (k + prod_list shape, r(name \<mapsto> ArrayV a))))))"
proof -
  note fb = field_is_bytes_dtd[OF assms]
  show ?thesis
  proof (cases p)
    case (P1 n)
    with fb have "\<not> field_is_bytes image_def_dtd n" by simp
    then show ?thesis unfolding P1 by (simp add: parse_prop_def)
  next
    case (P2 n t)
    with fb have "field_is_bytes image_def_dtd n = (t = S30)" by simp
    then show ?thesis unfolding P2 by (simp add: parse_prop_def)
  next
    case (P3 n t shape)
    with fb have "field_is_bytes image_def_dtd n = (t = S30)" by simp
    then show ?thesis unfolding P3 by (simp add: parse_prop_def Let_def)
  qed
qed

lemma parse_prop_errors:
  assumes "p \<in> set image_def_dtd" "parse_prop lib image_def_dtd items st p = Inl e"
  shows "e = IndexError \<or> e = ValueError \<or> e = OverflowError"
proof -
  obtain k r where st: "st = (k, r)" by (cases st)
  from assms(2) show ?thesis
    unfolding st parse_prop_dtd[OF assms(1)]
    by (auto split: if_splits sum.splits props.splits option.splits
        dest!: call_type_errors store_scalar_errors store_array_errors index_errors)
qed

lemma parse_prop_counter:
  assumes "p \<in> set image_def_dtd" "parse_prop lib image_def_dtd items (k, r) p = Inr (k', r')"
  shows "k' = k + ntokens p \<and> (\<forall>n t. p = P2 n t \<longrightarrow> k < length items)"
proof (cases "dtype_of p = Some S30")
  case True
  have "ntokens p = 1"
    using assms(1) True by (auto simp: image_def_dtd_def ntokens_def)
  with assms(2) True show ?thesis
    unfolding parse_prop_dtd[OF assms(1)]
    by (auto simp: index_def split: if_splits)
next
  case False
  with assms(2) show ?thesis
    unfolding parse_prop_dtd[OF assms(1)]
    by (cases p) (auto simp: ntokens_def index_def split: if_splits sum.splits option.splits)
qed

lemma parse_props_errors:
  assumes "set ps \<subseteq> set image_def_dtd" "parse_props lib image_def_dtd items ps st = Inl e"
  shows "e = IndexError \<or> e = ValueError \<or> e = OverflowError"
  using assms
proof (induction ps arbitrary: st)
  case Nil
  then show ?case by simp
next
  case (Cons p ps)
  show ?case
  proof (cases "parse_prop lib image_def_dtd items st p")
    case (Inl e')
    with Cons.prems have "e' = e" by simp
    moreover from Cons.prems(1) have "p \<in> set image_def_dtd" by simp
    ultimately show ?thesis using Inl by (auto dest: parse_prop_errors)
  next
    case (Inr st')
    with Cons show ?thesis by simp
  qed
qed

lemma parse_props_counter:
  assumes "set ps \<subseteq> set image_def_dtd"
    "parse_props lib image_def_dtd items ps (k, r) = Inr (k', r')"
  shows "k' = k + sum_list (map ntokens ps)"
  using assms
proof (induction ps arbitrary: k r)
  case Nil
  then show ?case by simp
next
  case (Cons p ps)
  from Cons.prems(2) obtain k1 r1 where
    p: "parse_prop lib image_def_dtd items (k, r) p = Inr (k1, r1)"
    and ps: "parse_props lib image_def_dtd items ps (k1, r1) = Inr (k', r')"
    by (auto split: sum.splits)
  from Cons.prems(1) have "p \<in> set image_def_dtd" by simp
  from parse_prop_counter[OF this p] have "k1 = k + ntokens p" by simp
  moreover from Cons.IH[OF _ ps] Cons.prems(1) have "k' = k1 + sum_list (map ntokens ps)" by simp
  ultimately show ?case by simp
qed

lemma parse_props_append:
  "parse_props lib dtd items (xs @ ys) st =
     (case parse_props lib dtd items xs st of
        Inl e \<Rightarrow> Inl e
      | Inr st' \<Rightarrow> parse_props lib dtd items ys st')"
  by (induction xs arbitrary: st) (auto split: sum.splits)

lemma parse_general_info_errors:
  "parse_general_info lib line g = Inl e \<Longrightarrow>
     e = ValueError \<or> e = TypeError \<or> (\<exists>k. e = KeyError k)"
  by (auto simp: parse_general_info_def Let_def reshape_def
      split: option.splits sum.splits if_splits props.splits
      dest!: call_type_errors)

lemma first_pass_errors:
  "first_pass lib fobj st = Inl e \<Longrightarrow> e = ValueError \<or> e = TypeError \<or> (\<exists>k. e = KeyError k)"
proof (induction lib fobj st rule: first_pass.induct)
  case (1 lib st)
  then show ?case by simp
next
  case (2 lib l ls g info)
  then show ?case
    by (auto simp: Let_def split: if_splits sum.splits dest: parse_general_info_errors)
qed

lemma first_pass_image_info:
  "first_pass lib fobj (g, info) = Inr (g', info') \<Longrightarrow> info' = info @ image_lines fobj"
proof (induction lib fobj "(g, info)" arbitrary: g info rule: first_pass.induct)
  case (1 lib)
  then show ?case by (simp add: image_lines_def)
next
  case (2 lib l ls g info)
  then show ?case
    by (auto simp: Let_def image_lines_def split: if_splits sum.splits)
qed

lemma parse_image_def_errors:
  "parse_image_def lib image_def_dtd line = Inl e \<Longrightarrow>
     e = IndexError \<or> e = ValueError \<or> e = OverflowError"
  by (auto simp: parse_image_def_def split: sum.splits dest: parse_props_errors[rotated])

lemma parse_PAR_header_errors:
  assumes "parse_PAR_header lib fobj = Inl e"
  shows "e = IndexError \<or> e = ValueError \<or> e = OverflowError \<or> e = TypeError
       \<or> (\<exists>k. e = KeyError k)"
proof (cases "first_pass lib fobj (Map.empty, [])")
  case (Inl e')
  with assms have "e' = e" by (simp add: parse_PAR_header_def)
  with Inl show ?thesis by (auto dest: first_pass_errors)
next
  case (Inr st)
  obtain g info where st: "st = (g, info)" by (cases st)
  from assms Inr st
  have "sequence (map (parse_image_def lib image_def_dtd) info) = Inl e"
    by (auto simp: parse_PAR_header_def split: sum.splits)
  from sequence_Inl[OF this] obtain line where "parse_image_def lib image_def_dtd line = Inl e"
    by auto
  then show ?thesis by (auto dest: parse_image_def_errors)
qed

lemma contrast_type_in_dtd: "P2 ''contrast type'' S30 \<in> set image_def_dtd"
  by (simp add: image_def_dtd_def)

lemma dtd_last: "image_def_dtd = butlast image_def_dtd @ [P2 ''label type'' Tint]"
  by (simp add: image_def_dtd_def)

lemma dtd_butlast_tokens: "sum_list (map ntokens (butlast image_def_dtd)) = 48"
  by (simp add: image_def_dtd_def ntokens_def)

lemma short_line_fails:
  assumes "length items < 49"
  shows "isl (parse_props lib image_def_dtd items image_def_dtd st)"
proof (rule ccontr)
  assume "\<not> isl (parse_props lib image_def_dtd items image_def_dtd st)"
  then obtain k' r' where ok: "parse_props lib image_def_dtd items image_def_dtd st = Inr (k', r')"
    by (cases "parse_props lib image_def_dtd items image_def_dtd st") auto
  obtain k0 r0 where st: "st = (k0, r0)" by (cases st)
  have sub: "set (butlast image_def_dtd) \<subseteq> set image_def_dtd"
    by (auto dest: in_set_butlastD)
  have "parse_props lib image_def_dtd items (butlast image_def_dtd @ [P2 ''label type'' Tint]) st
          = Inr (k', r')"
    using ok dtd_last by simp
  then obtain k1 r1 where
    init: "parse_props lib image_def_dtd items (butlast image_def_dtd) (k0, r0) = Inr (k1, r1)"
    and lst: "parse_prop lib image_def_dtd items (k1, r1) (P2 ''label type'' Tint) = Inr (k', r')"
    unfolding parse_props_append st by (auto split: sum.splits)
  from parse_props_counter[OF sub init] have "k1 = k0 + 48" by (simp add: dtd_butlast_tokens)
  moreover have "P2 ''label type'' Tint \<in> set image_def_dtd"
    by (simp add: image_def_dtd_def)
  from parse_prop_counter[OF this lst] have "k1 < length items" by simp
  ultimately show False using assms by simp
qed

lemma missing_token_IndexError:
  assumes "j < length image_def_dtd"
    and "parse_props lib image_def_dtd items (take j image_def_dtd) st = Inr (k, r)"
    and "length items \<le> k"
    and "image_def_dtd ! j = P2 n t"
  shows "parse_props lib image_def_dtd items image_def_dtd st = Inl IndexError"
proof -
  have split: "image_def_dtd = take j image_def_dtd @ P2 n t # drop (Suc j) image_def_dtd"
    using assms(1,4) by (metis id_take_nth_drop)
  have mem: "P2 n t \<in> set image_def_dtd"
    using assms(1,4) by (metis nth_mem)
  have "parse_prop lib image_def_dtd items (k, r) (P2 n t) = Inl IndexError"
    using assms(3) by (simp add: parse_prop_dtd[OF mem] index_def)
  then have "parse_props lib image_def_dtd items
               (take j image_def_dtd @ P2 n t # drop (Suc j) image_def_dtd) st = Inl IndexError"
    by (simp add: parse_props_append assms(2))
  with split show ?thesis by simp
qed

lemmas literal_simps = decimal_lib_def int_literal_def strip_sign_def is_digit_def

lemma parse_props_first_error:
  "ps = p # ps' \<Longrightarrow> parse_prop lib dtd items st p = Inl e
     \<Longrightarrow> parse_props lib dtd items ps st = Inl e"
  by simp

lemma dtd_first: "image_def_dtd = P2 ''slice number'' Tint # tl image_def_dtd"
  by (simp add: image_def_dtd_def)

lemma dtd_take3:
  "take 3 image_def_dtd
     = [P2 ''slice number'' Tint, P2 ''echo number'' Tint, P2 ''dynamic scan number'' Tint]"
  by (simp add: image_def_dtd_def)

lemma dtd_members:
  "P2 ''slice number'' Tint \<in> set image_def_dtd"
  "P2 ''echo number'' Tint \<in> set image_def_dtd"
  "P2 ''dynamic scan number'' Tint \<in> set image_def_dtd"
  by (simp_all add: image_def_dtd_def)

lemma dtd_nth3: "image_def_dtd ! 3 = P2 ''cardiac phase number'' Tint" "3 < length image_def_dtd"
  by (simp_all add: image_def_dtd_def)

lemma split_x: "py_split ''x'' = [''x'']"
  by (simp add: py_split_def is_space_def)

lemma split_111: "py_split ''1 1 1'' = [''1'', ''1'', ''1'']"
  by (simp add: py_split_def is_space_def)

lemma first_pass_x: "first_pass lib [''x''] (Map.empty, []) = Inr (Map.empty, [''x''])"
  by (simp add: py_strip_def is_space_def startswith_def)

lemma first_pass_111: "first_pass lib [''1 1 1''] (Map.empty, []) = Inr (Map.empty, [''1 1 1''])"
  by (simp add: py_strip_def is_space_def startswith_def)

text \<open>
  C10. Whatever the conversions and the lines, \<open>parse_PAR_header\<close> does not raise
  ZeroDivisionError; and a field of \<open>image_def_dtd\<close> declared \<^verbatim>\<open>'S30'\<close> has a byte-string
  dtype, so the loop body takes its first branch on it: with a token left it stores that
  one token (cut to 30 bytes) and advances \<open>item_counter\<close> by one, and with no token left
  it raises IndexError. The branch with the division \<^verbatim>\<open>1/0\<close> is never taken.
\<close>

theorem C10_no_zero_division:
  "parse_PAR_header lib fobj \<noteq> Inl ZeroDivisionError
 \<and> (\<forall>p\<in>set image_def_dtd. dtype_of p = Some S30 \<longrightarrow>
       field_is_bytes image_def_dtd (props0 p)
     \<and> parse_prop lib image_def_dtd items (k, r) p
         = (if k < length items
            then Inr (k + 1, r(props0 p \<mapsto> BytesV (take 30 (items ! k))))
            else Inl IndexError))"
proof -
  have "parse_PAR_header lib fobj \<noteq> Inl ZeroDivisionError"
    by (auto dest: parse_PAR_header_errors)
  moreover have "field_is_bytes image_def_dtd (props0 p)
     \<and> parse_prop lib image_def_dtd items (k, r) p
         = (if k < length items
            then Inr (k + 1, r(props0 p \<mapsto> BytesV (take 30 (items ! k))))
            else Inl IndexError)"
    if "p \<in> set image_def_dtd" "dtype_of p = Some S30" for p
    using that by (simp add: field_is_bytes_dtd parse_prop_dtd index_def)
  ultimately show ?thesis by blast
qed

text \<open>The field \<open>contrast type\<close> of a line whose tokens in place are \<open>8\<close> and \<open>0\<close>.\<close>

theorem C10_no_zero_division_witness:
  "parse_PAR_header decimal_lib [''1 1 1''] \<noteq> Inl ZeroDivisionError
 \<and> field_is_bytes image_def_dtd ''contrast type''
 \<and> parse_prop decimal_lib image_def_dtd [''8'', ''0''] (0, Map.empty) (P2 ''contrast type'' S30)
     = Inr (1, [''contrast type'' \<mapsto> BytesV ''8''])"
  using C10_no_zero_division[of decimal_lib "[''1 1 1'']" "[''8'', ''0'']" 0 Map.empty]
    contrast_type_in_dtd
  by (auto dest!: bspec[where x = "P2 ''contrast type'' S30"])

text \<open>
  A token that is no number raises the ValueError of its conversion, also on a line that
  is too short.
\<close>

lemma malformed_token_comes_first:
  "length (py_split ''x'') < required_tokens image_def_dtd
 \<and> parse_PAR_header decimal_lib [''x''] = Inl ValueError
 \<and> parse_PAR_header decimal_lib [''x''] \<noteq> Inl IndexError"
proof -
  have "parse_prop decimal_lib image_def_dtd [''x''] (0, zero_row image_def_dtd)
          (P2 ''slice number'' Tint) = Inl ValueError"
    by (simp add: parse_prop_dtd[OF dtd_members(1)] index_def call_type_def literal_simps)
  from parse_props_first_error[OF dtd_first this]
  have "parse_image_def decimal_lib image_def_dtd ''x'' = Inl ValueError"
    by (simp add: parse_image_def_def split_x)
  then have "parse_PAR_header decimal_lib [''x''] = Inl ValueError"
    unfolding parse_PAR_header_def first_pass_x by simp
  then show ?thesis by (simp add: split_x required_tokens_dtd)
qed

lemma dtd_take9:
  "image_def_dtd =
     [P2 ''slice number'' Tint, P2 ''echo number'' Tint, P2 ''dynamic scan number'' Tint,
      P2 ''cardiac phase number'' Tint, P2 ''image_type_mr'' Tint, P2 ''scanning sequence'' Tint,
      P2 ''index in REC file'' Tint, P2 ''image pixel size'' Tint, P2 ''scan percentage'' Tint]
     @ P3 ''recon resolution'' Tint [2] # drop 10 image_def_dtd"
  by (simp add: image_def_dtd_def)

lemma dtd_members9:
  "P2 ''cardiac phase number'' Tint \<in> set image_def_dtd"
  "P2 ''image_type_mr'' Tint \<in> set image_def_dtd"
  "P2 ''scanning sequence'' Tint \<in> set image_def_dtd"
  "P2 ''index in REC file'' Tint \<in> set image_def_dtd"
  "P2 ''image pixel size'' Tint \<in> set image_def_dtd"
  "P2 ''scan percentage'' Tint \<in> set image_def_dtd"
  "P3 ''recon resolution'' Tint [2] \<in> set image_def_dtd"
  by (simp_all add: image_def_dtd_def)

lemma split_nine:
  "py_split ''1 1 1 1 0 2 0 16 62''
     = [''1'', ''1'', ''1'', ''1'', ''0'', ''2'', ''0'', ''16'', ''62'']"
  by (simp add: py_split_def is_space_def)

lemma first_pass_nine:
  "first_pass lib [''1 1 1 1 0 2 0 16 62''] (Map.empty, [])
     = Inr (Map.empty, [''1 1 1 1 0 2 0 16 62''])"
  by (simp add: py_strip_def is_space_def startswith_def)

lemma nine_literals:
  "map int_literal [''1'', ''1'', ''1'', ''1'', ''0'', ''2'', ''0'', ''16'', ''62'']
     = [Some 1, Some 1, Some 1, Some 1, Some 0, Some 2, Some 0, Some 16, Some 62]"
  by (simp add: literal_simps)

lemma nine_fields:
  "\<exists>r. parse_props decimal_lib image_def_dtd
          [''1'', ''1'', ''1'', ''1'', ''0'', ''2'', ''0'', ''16'', ''62'']
          [P2 ''slice number'' Tint, P2 ''echo number'' Tint, P2 ''dynamic scan number'' Tint,
           P2 ''cardiac phase number'' Tint, P2 ''image_type_mr'' Tint,
           P2 ''scanning sequence'' Tint, P2 ''index in REC file'' Tint,
           P2 ''image pixel size'' Tint, P2 ''scan percentage'' Tint]
          (0, zero_row image_def_dtd) = Inr (9, r)"
  by (simp add: parse_prop_dtd[OF dtd_members(1)]
        parse_prop_dtd[OF dtd_members(2)] parse_prop_dtd[OF dtd_members(3)]
        parse_prop_dtd[OF dtd_members9(1)] parse_prop_dtd[OF dtd_members9(2)]
        parse_prop_dtd[OF dtd_members9(3)] parse_prop_dtd[OF dtd_members9(4)]
        parse_prop_dtd[OF dtd_members9(5)] parse_prop_dtd[OF dtd_members9(6)]
        index_def call_type_def store_scalar_def literal_simps)

lemma recon_resolution_empty:
  "parse_prop decimal_lib image_def_dtd
          [''1'', ''1'', ''1'', ''1'', ''0'', ''2'', ''0'', ''16'', ''62''] (9, r)
          (P3 ''recon resolution'' Tint [2]) = Inl ValueError"
  by (simp add: parse_prop_dtd[OF dtd_members9(7)] decimal_lib_def py_join_def py_split_def
      store_array_def)

text \<open>
  C8. The claim: a line with fewer tokens than the table requires fails with the error of
  too few fields, the IndexError of reading a token that is not there. The line
  \<open>1 1 1 1 0 2 0 16 62\<close> has nine tokens where 49 are required, each of them an integer
  literal; the nine scalar fields are parsed, \<open>recon resolution\<close> converts the empty string
  to an empty array, and storing it in the field of two elements raises ValueError, the
  error of a malformed value.
\<close>

theorem C8_short_line_of_numbers:
  "length (py_split ''1 1 1 1 0 2 0 16 62'') < required_tokens image_def_dtd
 \<and> map int_literal (py_split ''1 1 1 1 0 2 0 16 62'')
     = [Some 1, Some 1, Some 1, Some 1, Some 0, Some 2, Some 0, Some 16, Some 62]
 \<and> parse_PAR_header decimal_lib [''1 1 1 1 0 2 0 16 62''] = Inl ValueError
 \<and> parse_PAR_header decimal_lib [''1 1 1 1 0 2 0 16 62''] \<noteq> Inl IndexError"
proof -
  obtain r where nine: "parse_props decimal_lib image_def_dtd
          [''1'', ''1'', ''1'', ''1'', ''0'', ''2'', ''0'', ''16'', ''62'']
          [P2 ''slice number'' Tint, P2 ''echo number'' Tint, P2 ''dynamic scan number'' Tint,
           P2 ''cardiac phase number'' Tint, P2 ''image_type_mr'' Tint,
           P2 ''scanning sequence'' Tint, P2 ''index in REC file'' Tint,
           P2 ''image pixel size'' Tint, P2 ''scan percentage'' Tint]
          (0, zero_row image_def_dtd) = Inr (9, r)"
    using nine_fields by blast
  have "parse_props decimal_lib image_def_dtd
          [''1'', ''1'', ''1'', ''1'', ''0'', ''2'', ''0'', ''16'', ''62'']
          image_def_dtd (0, zero_row image_def_dtd) = Inl ValueError"
    apply (subst (2) dtd_take9)
    apply (subst parse_props_append)
    apply (subst nine)
    apply (simp only: sum.case parse_props.simps recon_resolution_empty)
    done
  then have "parse_image_def decimal_lib image_def_dtd ''1 1 1 1 0 2 0 16 62'' = Inl ValueError"
    by (simp add: parse_image_def_def split_nine)
  then have "parse_PAR_header decimal_lib [''1 1 1 1 0 2 0 16 62''] = Inl ValueError"
    unfolding parse_PAR_header_def first_pass_nine by simp
  moreover have "length (py_split ''1 1 1 1 0 2 0 16 62'') < required_tokens image_def_dtd"
    by (simp add: split_nine required_tokens_dtd)
  moreover have "map int_literal (py_split ''1 1 1 1 0 2 0 16 62'')
     = [Some 1, Some 1, Some 1, Some 1, Some 0, Some 2, Some 0, Some 16, Some 62]"
    by (simp only: split_nine nine_literals)
  ultimately show ?thesis by simp
qed

text \<open>
  C8, amended. For a line with fewer tokens than \<open>image_def_dtd\<close> requires (49), whatever
  the conversions: parsing the line fails, with IndexError, ValueError or OverflowError,
  and \<open>parse_PAR_header\<close> on a file that has the line among its image definitions fails
  and returns no table; and the failure is IndexError whenever the fields before a scalar
  or string field have been parsed and have used up the tokens of the line.
\<close>

theorem C8_too_few_tokens:
  assumes "length (py_split line) < required_tokens image_def_dtd"
  shows "(\<exists>e. parse_image_def lib image_def_dtd line = Inl e
            \<and> (e = IndexError \<or> e = ValueError \<or> e = OverflowError))
       \<and> (line \<in> set (image_lines fobj) \<longrightarrow> isl (parse_PAR_header lib fobj))
       \<and> (\<forall>j k r n t. j < length image_def_dtd
            \<and> parse_props lib image_def_dtd (py_split line) (take j image_def_dtd)
                 (0, zero_row image_def_dtd) = Inr (k, r)
            \<and> length (py_split line) \<le> k \<and> image_def_dtd ! j = P2 n t \<longrightarrow>
            parse_image_def lib image_def_dtd line = Inl IndexError)"
proof -
  from assms have short: "length (py_split line) < 49" by (simp add: required_tokens_dtd)
  have "isl (parse_props lib image_def_dtd (py_split line) image_def_dtd
               (0, zero_row image_def_dtd))"
    using short by (rule short_line_fails)
  then obtain e where e: "parse_props lib image_def_dtd (py_split line) image_def_dtd
                       (0, zero_row image_def_dtd) = Inl e"
    by (cases "parse_props lib image_def_dtd (py_split line) image_def_dtd
                 (0, zero_row image_def_dtd)") simp_all
  then have pe: "parse_image_def lib image_def_dtd line = Inl e"
    by (simp add: parse_image_def_def)
  from parse_image_def_errors[OF pe]
  have kinds: "e = IndexError \<or> e = ValueError \<or> e = OverflowError" .
  have hdr: "isl (parse_PAR_header lib fobj)" if mem: "line \<in> set (image_lines fobj)"
  proof (cases "first_pass lib fobj (Map.empty, [])")
    case (Inl e')
    then show ?thesis by (simp add: parse_PAR_header_def)
  next
    case (Inr st)
    obtain g info where st: "st = (g, info)" by (cases st)
    from first_pass_image_info[of lib fobj Map.empty "[]" g info] Inr st
    have "info = image_lines fobj" by simp
    with mem pe have "Inl e \<in> set (map (parse_image_def lib image_def_dtd) info)"
      by force
    from sequence_isl[OF this] Inr st show ?thesis
      by (auto simp: parse_PAR_header_def split: sum.splits)
  qed
  have idx: "parse_image_def lib image_def_dtd line = Inl IndexError"
    if "j < length image_def_dtd"
      "parse_props lib image_def_dtd (py_split line) (take j image_def_dtd)
         (0, zero_row image_def_dtd) = Inr (k, r)"
      "length (py_split line) \<le> k" "image_def_dtd ! j = P2 n t" for j k r n t
    using missing_token_IndexError[OF that] by (simp add: parse_image_def_def)
  show ?thesis using pe kinds hdr idx by blast
qed

text \<open>The line \<open>1 1 1\<close>: three fields are parsed, the fourth finds no token.\<close>

theorem C8_too_few_tokens_witness:
  "length (py_split ''1 1 1'') < required_tokens image_def_dtd
 \<and> parse_image_def decimal_lib image_def_dtd ''1 1 1'' = Inl IndexError
 \<and> isl (parse_PAR_header decimal_lib [''1 1 1''])"
proof -
  have short: "length (py_split ''1 1 1'') < required_tokens image_def_dtd"
    by (simp add: split_111 required_tokens_dtd)
  have three: "parse_props decimal_lib image_def_dtd (py_split ''1 1 1'') (take 3 image_def_dtd)
                 (0, zero_row image_def_dtd)
               = Inr (3, (zero_row image_def_dtd)(''slice number'' \<mapsto> IntV 1,
                        ''echo number'' \<mapsto> IntV 1, ''dynamic scan number'' \<mapsto> IntV 1))"
    by (simp add: split_111 dtd_take3 parse_prop_dtd[OF dtd_members(1)]
        parse_prop_dtd[OF dtd_members(2)] parse_prop_dtd[OF dtd_members(3)]
        index_def call_type_def store_scalar_def literal_simps)
  have mem: "''1 1 1'' \<in> set (image_lines [''1 1 1''])"
    by (simp add: image_lines_def py_strip_def is_space_def startswith_def)
  from C8_too_few_tokens[OF short, of decimal_lib "[''1 1 1'']"] three mem dtd_nth3
  show ?thesis using short by (auto simp: split_111)
qed

end
